theory Spec2Isabelle
  imports Complex_Main
begin

section \<open>JavaScript numbers\<close>

text \<open>
  A TypeScript \<open>number\<close> is an IEEE-754 binary64 value: a finite double that is not
  zero, a zero or an infinity with its sign, or NaN (JavaScript cannot tell one NaN
  from another). Every arithmetic operation computes the exact real result and rounds
  it to the nearest double, ties to the even mantissa.
\<close>

subsection \<open>Rounding a real to the nearest double\<close>

text \<open>
  \<open>exponent r\<close> is the binary exponent of \<open>r\<close> (\<open>2 ^ e \<le> |r| < 2 ^ (e + 1)\<close>) and
  \<open>quantum r\<close> the exponent of the last bit of a double of that size: 52 bits below
  the leading bit, and never below \<open>-1074\<close>, the last bit of the subnormal doubles.
  \<open>rnd r\<close> is the multiple of \<open>2 ^ quantum r\<close> nearest to \<open>r\<close>. A result of
  magnitude \<open>2 ^ 1024\<close> or more overflows.
\<close>

definition exponent :: "real \<Rightarrow> int" where
  "exponent r = \<lfloor>log 2 \<bar>r\<bar>\<rfloor>"

definition quantum :: "real \<Rightarrow> int" where
  "quantum r = max (exponent r - 52) (- 1074)"

definition round_even :: "real \<Rightarrow> int" where
  "round_even r =
     (let f = \<lfloor>r\<rfloor>; d = r - of_int f
      in if d < 1 / 2 then f else if 1 / 2 < d then f + 1 else if even f then f else f + 1)"

definition rnd :: "real \<Rightarrow> real" where
  "rnd r = (if r = 0 then 0 else of_int (round_even (r / 2 powi quantum r)) * 2 powi quantum r)"

definition overflow :: real where
  "overflow = 2 powi 1024"

definition is_double :: "real \<Rightarrow> bool" where
  "is_double r \<longleftrightarrow> rnd r = r \<and> \<bar>r\<bar> < overflow"

subsection \<open>The type of numbers\<close>

text \<open>
  \<open>double\<close> is the type of the finite doubles other than zero. In \<open>Zero s\<close> and
  \<open>Infinity s\<close> the flag \<open>s\<close> says that the sign is negative.
\<close>

typedef double = "{r. is_double r \<and> r \<noteq> 0}"
proof
  show "1 \<in> {r. is_double r \<and> r \<noteq> 0}"
    by (simp add: is_double_def rnd_def quantum_def exponent_def round_even_def overflow_def)
qed

datatype number = Nonzero double | Zero bool | Infinity bool | NaN

fun val :: "number \<Rightarrow> real" where
  "val (Nonzero d) = Rep_double d"
| "val (Zero s) = 0"
| "val (Infinity s) = 0"
| "val NaN = 0"

fun negative :: "number \<Rightarrow> bool" where
  "negative (Nonzero d) = (Rep_double d < 0)"
| "negative (Zero s) = s"
| "negative (Infinity s) = s"
| "negative NaN = False"

fun is_Fin :: "number \<Rightarrow> bool" where
  "is_Fin (Nonzero d) = True"
| "is_Fin (Zero s) = True"
| "is_Fin (Infinity s) = False"
| "is_Fin NaN = False"

text \<open>
  \<open>Fin r\<close> is the number that the real \<open>r\<close> rounds to: the value of a numeric literal
  (\<open>Fin 0.01\<close> is the double that the source text \<open>0.01\<close> denotes), and the result of
  an operation whose exact result is \<open>r\<close>. An exact result that is too small for the
  smallest double becomes a zero with the sign of \<open>r\<close>.
\<close>

definition Fin :: "real \<Rightarrow> number" where
  "Fin r =
     (let d = rnd r
      in if overflow \<le> \<bar>d\<bar> then Infinity (r < 0)
         else if d = 0 then Zero (r < 0)
         else Nonzero (Abs_double d))"

text \<open>
  The operations \<open>-\<close>, \<open>+\<close>, \<open>*\<close>, \<open>/\<close>, \<open><=\<close> and \<open><\<close> of JavaScript. NaN is
  absorbing and compares false with everything; \<open>Infinity - Infinity\<close>,
  \<open>0 * Infinity\<close>, \<open>0 / 0\<close> and \<open>Infinity / Infinity\<close> are NaN; the sign of a
  product or quotient is the exclusive or of the signs; the two zeros compare equal.
\<close>

instantiation number :: "{uminus, plus, minus, times, inverse, ord}"
begin

fun uminus_number :: "number \<Rightarrow> number" where
  "uminus_number (Nonzero d) = Nonzero (Abs_double (- Rep_double d))"
| "uminus_number (Zero s) = Zero (\<not> s)"
| "uminus_number (Infinity s) = Infinity (\<not> s)"
| "uminus_number NaN = NaN"

fun plus_number :: "number \<Rightarrow> number \<Rightarrow> number" where
  "plus_number NaN b = NaN"
| "plus_number a NaN = NaN"
| "plus_number (Infinity s) (Infinity t) = (if s = t then Infinity s else NaN)"
| "plus_number (Infinity s) b = Infinity s"
| "plus_number a (Infinity t) = Infinity t"
| "plus_number (Zero s) (Zero t) = Zero (s \<and> t)"
| "plus_number (Zero s) (Nonzero b) = Nonzero b"
| "plus_number (Nonzero a) (Zero t) = Nonzero a"
| "plus_number (Nonzero a) (Nonzero b) = Fin (Rep_double a + Rep_double b)"

definition minus_number :: "number \<Rightarrow> number \<Rightarrow> number" where
  "minus_number a b = a + (- b)"

fun times_number :: "number \<Rightarrow> number \<Rightarrow> number" where
  "times_number NaN b = NaN"
| "times_number a NaN = NaN"
| "times_number (Infinity s) (Zero t) = NaN"
| "times_number (Zero s) (Infinity t) = NaN"
| "times_number (Nonzero a) (Nonzero b) = Fin (Rep_double a * Rep_double b)"
| "times_number (Infinity s) b = Infinity (s \<noteq> negative b)"
| "times_number a (Infinity t) = Infinity (negative a \<noteq> t)"
| "times_number (Zero s) b = Zero (s \<noteq> negative b)"
| "times_number a (Zero t) = Zero (negative a \<noteq> t)"

fun divide_number :: "number \<Rightarrow> number \<Rightarrow> number" where
  "divide_number NaN b = NaN"
| "divide_number a NaN = NaN"
| "divide_number (Infinity s) (Infinity t) = NaN"
| "divide_number (Zero s) (Zero t) = NaN"
| "divide_number (Nonzero a) (Nonzero b) = Fin (Rep_double a / Rep_double b)"
| "divide_number (Infinity s) b = Infinity (s \<noteq> negative b)"
| "divide_number a (Infinity t) = Zero (negative a \<noteq> t)"
| "divide_number (Zero s) b = Zero (s \<noteq> negative b)"
| "divide_number a (Zero t) = Infinity (negative a \<noteq> t)"

definition inverse_number :: "number \<Rightarrow> number" where
  "inverse_number a = divide (Fin 1) a"

fun less_eq_number :: "number \<Rightarrow> number \<Rightarrow> bool" where
  "less_eq_number NaN b = False"
| "less_eq_number a NaN = False"
| "less_eq_number (Infinity s) (Infinity t) = (s \<or> \<not> t)"
| "less_eq_number (Infinity s) b = s"
| "less_eq_number a (Infinity t) = (\<not> t)"
| "less_eq_number a b = (val a \<le> val b)"

fun less_number :: "number \<Rightarrow> number \<Rightarrow> bool" where
  "less_number NaN b = False"
| "less_number a NaN = False"
| "less_number (Infinity s) (Infinity t) = (s \<and> \<not> t)"
| "less_number (Infinity s) b = s"
| "less_number a (Infinity t) = (\<not> t)"
| "less_number a b = (val a < val b)"

instance ..

end

text \<open>
  \<open>Math.max\<close> and \<open>Math.min\<close> of two arguments: NaN as soon as one argument is, and
  \<open>+0\<close> counts as larger than \<open>-0\<close>.
\<close>

fun Math_max :: "number \<Rightarrow> number \<Rightarrow> number" where
  "Math_max NaN b = NaN"
| "Math_max a NaN = NaN"
| "Math_max (Zero s) (Zero t) = Zero (s \<and> t)"
| "Math_max a b = (if a \<le> b then b else a)"

fun Math_min :: "number \<Rightarrow> number \<Rightarrow> number" where
  "Math_min NaN b = NaN"
| "Math_min a NaN = NaN"
| "Math_min (Zero s) (Zero t) = Zero (s \<or> t)"
| "Math_min a b = (if a \<le> b then a else b)"

text \<open>\<open>Math.sqrt\<close>: the rounded square root, NaN below zero, and \<open>-0\<close> for \<open>-0\<close>.\<close>

fun Math_sqrt :: "number \<Rightarrow> number" where
  "Math_sqrt (Nonzero d) = (if Rep_double d < 0 then NaN else Fin (sqrt (Rep_double d)))"
| "Math_sqrt (Zero s) = Zero s"
| "Math_sqrt (Infinity s) = (if s then NaN else Infinity False)"
| "Math_sqrt NaN = NaN"

text \<open>
  \<open>Math.pow\<close> with a natural exponent, taken as the rounded power (the source only
  calls it with the literal 2, for the square of a coordinate difference).
  \<open>Math.pow(v, 0)\<close> is 1 for every \<open>v\<close>, NaN included.
\<close>

definition Math_pow :: "number \<Rightarrow> nat \<Rightarrow> number" where
  "Math_pow a n =
     (if n = 0 then Fin 1
      else case a of
        Nonzero d \<Rightarrow> Fin (Rep_double d ^ n)
      | Zero s \<Rightarrow> Zero (s \<and> odd n)
      | Infinity s \<Rightarrow> Infinity (s \<and> odd n)
      | NaN \<Rightarrow> NaN)"


subsection \<open>Magnitudes\<close>

text \<open>
  \<open>magnitude_within k r\<close>: the real \<open>r\<close> is not zero and its magnitude lies between
  \<open>2 ^ (- k)\<close> and \<open>2 ^ k\<close>. Products and quotients of doubles of moderate magnitude
  neither overflow nor reach the subnormal range, where rounding loses its relative
  accuracy.
\<close>

definition magnitude_within :: "int \<Rightarrow> real \<Rightarrow> bool" where
  "magnitude_within k r \<longleftrightarrow> 2 powi (- k) \<le> \<bar>r\<bar> \<and> \<bar>r\<bar> \<le> 2 powi k"


section \<open>Calibration store (utils/calibration.ts)\<close>

text \<open>
  \<open>CalibrationData\<close> and \<open>Partial<CalibrationData>\<close> have the same six properties. The
  record is written once, over the type of a numeric property and the type of the
  flag: a \<open>CalibrationData\<close> holds a value in each, a \<open>Partial<CalibrationData>\<close> holds
  \<open>Some v\<close> for a property that is present and \<open>None\<close> for one that is not.
\<close>

record ('n, 'b) Calibration =
  screenWidthCm :: 'n
  screenHeightCm :: 'n
  viewingDistanceCm :: 'n
  pixelWidth :: 'n
  pixelHeight :: 'n
  isCalibrated :: 'b

type_synonym CalibrationData = "(number, bool) Calibration"

type_synonym Partial_CalibrationData = "(number option, bool option) Calibration"

definition DEFAULT_CALIBRATION :: CalibrationData where
  "DEFAULT_CALIBRATION =
     \<lparr>screenWidthCm = Fin 34, screenHeightCm = Fin 19, viewingDistanceCm = Fin 60,
      pixelWidth = Fin 1920, pixelHeight = Fin 1080, isCalibrated = False\<rparr>"

text \<open>The object literal \<open>{}\<close>, and an object with every property present.\<close>

definition no_properties :: Partial_CalibrationData where
  "no_properties =
     \<lparr>screenWidthCm = None, screenHeightCm = None, viewingDistanceCm = None,
      pixelWidth = None, pixelHeight = None, isCalibrated = None\<rparr>"

definition all_properties :: "CalibrationData \<Rightarrow> Partial_CalibrationData" where
  "all_properties d =
     \<lparr>screenWidthCm = Some (screenWidthCm d), screenHeightCm = Some (screenHeightCm d),
      viewingDistanceCm = Some (viewingDistanceCm d), pixelWidth = Some (pixelWidth d),
      pixelHeight = Some (pixelHeight d), isCalibrated = Some (isCalibrated d)\<rparr>"

text \<open>
  Object spread \<open>{ ...d, ...p }\<close>: a property present in \<open>p\<close> overrides the one of \<open>d\<close>.
\<close>

definition spread :: "CalibrationData \<Rightarrow> Partial_CalibrationData \<Rightarrow> CalibrationData" where
  "spread d p =
     \<lparr>screenWidthCm = (case screenWidthCm p of None \<Rightarrow> screenWidthCm d | Some v \<Rightarrow> v),
      screenHeightCm = (case screenHeightCm p of None \<Rightarrow> screenHeightCm d | Some v \<Rightarrow> v),
      viewingDistanceCm =
        (case viewingDistanceCm p of None \<Rightarrow> viewingDistanceCm d | Some v \<Rightarrow> v),
      pixelWidth = (case pixelWidth p of None \<Rightarrow> pixelWidth d | Some v \<Rightarrow> v),
      pixelHeight = (case pixelHeight p of None \<Rightarrow> pixelHeight d | Some v \<Rightarrow> v),
      isCalibrated = (case isCalibrated p of None \<Rightarrow> isCalibrated d | Some v \<Rightarrow> v)\<rparr>"

text \<open>
  \<open>localStorage\<close> under \<open>CALIBRATION_STORAGE_KEY\<close>: no item (or an empty string, which
  \<open>if (stored)\<close> treats alike), a text that \<open>JSON.parse\<close> rejects, or a text that parses
  to an object with some of the calibration properties. A JSON text is represented by
  the object it parses to (JSON has no NaN and no infinity, \<open>JSON.stringify\<close> writes
  \<open>null\<close> for them; nothing below reads back an item that was written). \<open>throws\<close> says that every access to the storage raises
  (storage disabled or full); the code catches that and only logs it.
\<close>

datatype stored_item = NoItem | Malformed | Parsed Partial_CalibrationData

record LocalStorage =
  item :: stored_item
  throws :: bool

record CalibrationManager =
  data :: CalibrationData
  localStorage :: LocalStorage

definition loadCalibration :: "LocalStorage \<Rightarrow> CalibrationData" where
  "loadCalibration st =
     (if throws st then DEFAULT_CALIBRATION
      else case item st of
             Parsed parsed \<Rightarrow> spread DEFAULT_CALIBRATION parsed
           | Malformed \<Rightarrow> DEFAULT_CALIBRATION
           | NoItem \<Rightarrow> DEFAULT_CALIBRATION)"

definition CalibrationManager_new :: "LocalStorage \<Rightarrow> CalibrationManager" where
  "CalibrationManager_new st = \<lparr>data = loadCalibration st, localStorage = st\<rparr>"

definition saveCalibration ::
  "CalibrationManager \<Rightarrow> Partial_CalibrationData \<Rightarrow> CalibrationManager" where
  "saveCalibration m p =
     (let d = (spread (data m) p)\<lparr>isCalibrated := True\<rparr>;
          st = localStorage m
      in \<lparr>data = d,
          localStorage = (if throws st then st else st\<lparr>item := Parsed (all_properties d)\<rparr>)\<rparr>)"

text \<open>
  What the caller of \<open>saveCalibration\<close> sees: the call returns (\<open>Inr\<close>, with the manager
  as the call leaves it) or an exception escapes from it (\<open>Inl\<close>). The body has no
  \<open>throw\<close>; the one statement that can raise, the write to the storage, stands in
  \<open>try ... catch\<close>, and the handler only logs the error.
\<close>

datatype exception = StorageError

definition setItem :: "LocalStorage \<Rightarrow> stored_item \<Rightarrow> exception + LocalStorage" where
  "setItem st v = (if throws st then Inl StorageError else Inr (st\<lparr>item := v\<rparr>))"

definition saveCalibration_call ::
  "CalibrationManager \<Rightarrow> Partial_CalibrationData \<Rightarrow> exception + CalibrationManager" where
  "saveCalibration_call m p =
     (let d = (spread (data m) p)\<lparr>isCalibrated := True\<rparr>
      in case setItem (localStorage m) (Parsed (all_properties d)) of
           Inr st \<Rightarrow> Inr \<lparr>data = d, localStorage = st\<rparr>
         | Inl error \<Rightarrow> Inr \<lparr>data = d, localStorage = localStorage m\<rparr>)"

definition getCalibration :: "CalibrationManager \<Rightarrow> CalibrationData" where
  "getCalibration m = spread (data m) no_properties"

definition resetCalibration :: "CalibrationManager \<Rightarrow> CalibrationManager" where
  "resetCalibration m =
     (let st = localStorage m
      in \<lparr>data = spread DEFAULT_CALIBRATION no_properties,
          localStorage = (if throws st then st else st\<lparr>item := NoItem\<rparr>)\<rparr>)"

definition updateScreenDimensions ::
  "CalibrationManager \<Rightarrow> number \<Rightarrow> number \<Rightarrow> CalibrationManager" where
  "updateScreenDimensions m widthCm heightCm =
     saveCalibration m
       (no_properties\<lparr>screenWidthCm := Some widthCm, screenHeightCm := Some heightCm\<rparr>)"

definition updateViewingDistance :: "CalibrationManager \<Rightarrow> number \<Rightarrow> CalibrationManager" where
  "updateViewingDistance m distanceCm =
     saveCalibration m (no_properties\<lparr>viewingDistanceCm := Some distanceCm\<rparr>)"

definition updatePixelDimensions ::
  "CalibrationManager \<Rightarrow> number \<Rightarrow> number \<Rightarrow> CalibrationManager" where
  "updatePixelDimensions m width height =
     saveCalibration m (no_properties\<lparr>pixelWidth := Some width, pixelHeight := Some height\<rparr>)"

text \<open>Objects with the numeric properties \<open>x\<close>, \<open>y\<close> and, in the extension, \<open>z\<close>.\<close>

record XY =
  x :: number
  y :: number

record XYZ = XY +
  z :: number

definition getCmPerPixel :: "CalibrationManager \<Rightarrow> XY" where
  "getCmPerPixel m =
     \<lparr>x = screenWidthCm (data m) / pixelWidth (data m),
      y = screenHeightCm (data m) / pixelHeight (data m)\<rparr>"

definition getScreenAspectRatio :: "CalibrationManager \<Rightarrow> number" where
  "getScreenAspectRatio m = screenWidthCm (data m) / screenHeightCm (data m)"

text \<open>
  The second argument is optional in the source (\<open>assumedRealFaceWidthCm: number = 15\<close>):
  \<open>None\<close> is the call that leaves it out.
\<close>

definition estimateViewingDistanceFromFaceWidth ::
  "CalibrationManager \<Rightarrow> number \<Rightarrow> number option \<Rightarrow> number" where
  "estimateViewingDistanceFromFaceWidth m faceWidthNormalized arg =
     (let assumedRealFaceWidthCm = (case arg of None \<Rightarrow> Fin 15 | Some a \<Rightarrow> a);
          faceWidthPixels = faceWidthNormalized * pixelWidth (data m);
          cmPerPixel = getCmPerPixel m;
          faceWidthCm = faceWidthPixels * x cmPerPixel;
          estimatedDistance = (assumedRealFaceWidthCm * screenWidthCm (data m)) / faceWidthCm
      in Math_max (Fin 20) (Math_min (Fin 150) estimatedDistance))"


section \<open>Off-axis camera (utils/offAxisCamera.ts)\<close>

text \<open>
  \<open>HeadPose\<close> and \<open>HeadPositionWorld\<close> are both objects with the numeric properties
  \<open>x\<close>, \<open>y\<close>, \<open>z\<close>.
\<close>

type_synonym HeadPose = XYZ

type_synonym HeadPositionWorld = XYZ

text \<open>
  The three.js library is not part of the repository. Its \<open>Matrix4\<close> is a type
  parameter \<open>'m\<close>, and the two matrix operations the class calls are parameters:
  \<open>makePerspective left right top bottom near far\<close> is the matrix that
  \<open>Matrix4.makePerspective\<close> writes (it overwrites every element), \<open>invert\<close> the one that
  \<open>Matrix4.invert\<close> leaves. Of a camera the model keeps the position, the point
  given to the last \<open>lookAt\<close> call (three.js derives the rotation of the camera from
  both) and the two projection matrices.
\<close>

record 'm THREE =
  makePerspective :: "number \<Rightarrow> number \<Rightarrow> number \<Rightarrow> number \<Rightarrow> number \<Rightarrow> number \<Rightarrow> 'm"
  invert :: "'m \<Rightarrow> 'm"

record 'm PerspectiveCamera =
  position :: XYZ
  lookAtTarget :: XYZ
  projectionMatrix :: 'm
  projectionMatrixInverse :: 'm

record 'm OffAxisCamera =
  camera :: "'m PerspectiveCamera"
  calibration :: CalibrationData
  screenWidthWorld :: number
  screenHeightWorld :: number
  nearPlane :: number
  farPlane :: number

definition OffAxisCamera_new ::
  "'m PerspectiveCamera \<Rightarrow> CalibrationData \<Rightarrow> 'm OffAxisCamera" where
  "OffAxisCamera_new cam cal =
     (let worldScale = Fin 0.01
      in \<lparr>camera = cam, calibration = cal,
          screenWidthWorld = screenWidthCm cal * worldScale,
          screenHeightWorld = screenHeightCm cal * worldScale,
          nearPlane = Fin 0.05, farPlane = Fin 1000\<rparr>)"

definition updateCalibration :: "'m OffAxisCamera \<Rightarrow> CalibrationData \<Rightarrow> 'm OffAxisCamera" where
  "updateCalibration s cal =
     (let worldScale = Fin 0.01
      in s\<lparr>calibration := cal,
           screenWidthWorld := screenWidthCm cal * worldScale,
           screenHeightWorld := screenHeightCm cal * worldScale\<rparr>)"

definition headPoseToWorldPosition :: "'m OffAxisCamera \<Rightarrow> HeadPose \<Rightarrow> HeadPositionWorld" where
  "headPoseToWorldPosition s headPose =
     (let worldScale = Fin 0.01;
          movementScale = Fin 1.5;
          normalizedX = x headPose;
          normalizedY = y headPose;
          headXWorld = - (normalizedX - Fin 0.5) * screenWidthWorld s * movementScale;
          headYWorld = - (normalizedY - Fin 0.5) * screenHeightWorld s * movementScale;
          baseDistance = viewingDistanceCm (calibration s) * worldScale;
          depthScale = Fin 1.0 / z headPose;
          headZWorld = baseDistance * depthScale
      in \<lparr>x = headXWorld, y = headYWorld, z = headZWorld\<rparr>)"

definition updateProjectionMatrix ::
  "'m THREE \<Rightarrow> 'm OffAxisCamera \<Rightarrow> HeadPositionWorld \<Rightarrow> 'm OffAxisCamera" where
  "updateProjectionMatrix three s headPosition =
     (let near = nearPlane s;
          far = farPlane s;
          screenLeft = (- screenWidthWorld s) / Fin 2;
          screenRight = screenWidthWorld s / Fin 2;
          screenBottom = (- screenHeightWorld s) / Fin 2;
          screenTop = screenHeightWorld s / Fin 2;
          eyeX = x headPosition;
          eyeY = y headPosition;
          eyeZ = z headPosition;
          screenZ = Fin 0;
          viewerToScreenDistance = eyeZ - screenZ
      in if viewerToScreenDistance \<le> Fin 0 then s
         else
           let n_over_d = near / viewerToScreenDistance;
               left = (screenLeft - eyeX) * n_over_d;
               right = (screenRight - eyeX) * n_over_d;
               bottom = (screenBottom - eyeY) * n_over_d;
               top = (screenTop - eyeY) * n_over_d;
               m = makePerspective three left right top bottom near far
           in s\<lparr>camera := (camera s)\<lparr>projectionMatrix := m,
                                       projectionMatrixInverse := invert three m\<rparr>\<rparr>)"

definition setCameraPosition :: "'m OffAxisCamera \<Rightarrow> HeadPositionWorld \<Rightarrow> 'm OffAxisCamera" where
  "setCameraPosition s headPosition =
     s\<lparr>camera := (camera s)
          \<lparr>position := \<lparr>x = x headPosition, y = y headPosition, z = z headPosition\<rparr>,
           lookAtTarget := \<lparr>x = x headPosition, y = y headPosition, z = Fin 0\<rparr>\<rparr>\<rparr>"

definition updateFromHeadPose ::
  "'m THREE \<Rightarrow> 'm OffAxisCamera \<Rightarrow> HeadPose \<Rightarrow> 'm OffAxisCamera" where
  "updateFromHeadPose three s headPose =
     (let worldPos = headPoseToWorldPosition s headPose
      in updateProjectionMatrix three (setCameraPosition s worldPos) worldPos)"

definition getScreenDimensions :: "'m OffAxisCamera \<Rightarrow> number \<times> number" where
  "getScreenDimensions s = (screenWidthWorld s, screenHeightWorld s)"

text \<open>
  The fields of the class are private: an object is what the constructor returns, and
  what the methods of the class make of such an object.
\<close>

inductive reachable :: "'m THREE \<Rightarrow> 'm OffAxisCamera \<Rightarrow> bool" for three :: "'m THREE" where
  constructed: "reachable three (OffAxisCamera_new cam cal)"
| calibrated: "reachable three s \<Longrightarrow> reachable three (updateCalibration s cal)"
| projected: "reachable three s \<Longrightarrow> reachable three (updateProjectionMatrix three s headPosition)"
| placed: "reachable three s \<Longrightarrow> reachable three (setCameraPosition s headPosition)"
| updated: "reachable three s \<Longrightarrow> reachable three (updateFromHeadPose three s headPose)"


section \<open>Landmark adapter (\<open>onResults\<close> of the face mesh view)\<close>

text \<open>
  What \<open>onResults\<close> does with the callback \<open>onHeadPoseUpdate\<close>: it does not call it, or it
  calls it once, with \<open>null\<close> or with a pose. Drawing on the canvas is not modelled.
  \<open>canvas\<close> says that \<open>canvasRef.current\<close> and its 2d context exist, \<open>callback\<close> that the
  optional property \<open>onHeadPoseUpdate\<close> was given; \<open>multiFaceLandmarks\<close> is \<open>None\<close> when
  the result object has no such property.
\<close>

datatype callback_call = NotCalled | Called "HeadPose option"

record Results =
  multiFaceLandmarks :: "XYZ list list option"

definition onResults :: "bool \<Rightarrow> bool \<Rightarrow> Results \<Rightarrow> callback_call" where
  "onResults canvas callback results =
     (if \<not> canvas then NotCalled
      else case multiFaceLandmarks results of
        Some (landmarks # others) \<Rightarrow>
          if callback then
            if 468 \<le> length landmarks then
              let leftEyeInner = landmarks ! 133;
                  rightEyeInner = landmarks ! 362;
                  noseTip = landmarks ! 1;
                  leftEyeOuter = landmarks ! 33;
                  rightEyeOuter = landmarks ! 263;
                  faceX = (x leftEyeInner + x rightEyeInner + x noseTip) / Fin 3;
                  faceY = (y leftEyeInner + y rightEyeInner + y noseTip) / Fin 3;
                  interOcularDist = Math_sqrt
                    (Math_pow (x rightEyeInner - x leftEyeInner) 2 +
                     Math_pow (y rightEyeInner - y leftEyeInner) 2);
                  eyeWidth = Math_sqrt
                    (Math_pow (x rightEyeOuter - x leftEyeOuter) 2 +
                     Math_pow (y rightEyeOuter - y leftEyeOuter) 2);
                  depthProxy = (interOcularDist + eyeWidth * Fin 0.5) / Fin 0.15
              in Called (Some \<lparr>x = faceX, y = faceY,
                               z = Math_max (Fin 0.5) (Math_min (Fin 2.0) depthProxy)\<rparr>)
            else NotCalled
          else NotCalled
      | Some [] \<Rightarrow> if callback then Called None else NotCalled
      | None \<Rightarrow> if callback then Called None else NotCalled)"


section \<open>Example values\<close>

text \<open>
  A manager created on an empty storage (it holds the default calibration), a stand-in
  for three.js whose matrix is the list of the arguments of \<open>makePerspective\<close>, a
  camera, and the off-axis camera built from them.
\<close>

definition example_manager :: CalibrationManager where
  "example_manager = CalibrationManager_new \<lparr>item = NoItem, throws = False\<rparr>"

definition example_three :: "number list THREE" where
  "example_three =
     \<lparr>makePerspective = (\<lambda>left right top bottom near far. [left, right, top, bottom, near, far]),
      invert = rev\<rparr>"

definition example_camera :: "number list PerspectiveCamera" where
  "example_camera =
     \<lparr>position = \<lparr>x = Fin 0, y = Fin 0, z = Fin 5\<rparr>,
      lookAtTarget = \<lparr>x = Fin 0, y = Fin 0, z = Fin 0\<rparr>,
      projectionMatrix = [], projectionMatrixInverse = []\<rparr>"

definition example_offAxisCamera :: "number list OffAxisCamera" where
  "example_offAxisCamera = OffAxisCamera_new example_camera DEFAULT_CALIBRATION"

text \<open>
  Two updates, one with ordinary values and one whose dimensions are all zero or
  negative, and a landmark set of 468 points: the inner eye corners (133, 362) are
  0.125 apart, the outer ones (33, 263) 0.25, every other point is \<open>(0.5, 0.54)\<close>.
\<close>

definition example_update :: Partial_CalibrationData where
  "example_update =
     \<lparr>screenWidthCm = Some (Fin 52), screenHeightCm = Some (Fin 29),
      viewingDistanceCm = Some (Fin 70), pixelWidth = Some (Fin 2560),
      pixelHeight = Some (Fin 1440), isCalibrated = Some False\<rparr>"

definition example_invalid_update :: Partial_CalibrationData where
  "example_invalid_update =
     \<lparr>screenWidthCm = Some (Fin (- 5)), screenHeightCm = Some (Fin 0),
      viewingDistanceCm = Some (Fin (- 60)), pixelWidth = Some (Fin 0),
      pixelHeight = Some (Fin (- 1)), isCalibrated = None\<rparr>"

definition example_landmarks :: "XYZ list" where
  "example_landmarks =
     map (\<lambda>i. if i = 362 then \<lparr>x = Fin 0.5625, y = Fin 0.48, z = Fin 0\<rparr>
              else if i = 263 then \<lparr>x = Fin 0.625, y = Fin 0.48, z = Fin 0\<rparr>
              else if i = 33 then \<lparr>x = Fin 0.375, y = Fin 0.48, z = Fin 0\<rparr>
              else if i = 133 then \<lparr>x = Fin 0.4375, y = Fin 0.48, z = Fin 0\<rparr>
              else \<lparr>x = Fin 0.5, y = Fin 0.54, z = Fin 0\<rparr>) [0..<468]"

text \<open>
  Three calibrated stores that differ in \<open>screenWidthCm\<close>, \<open>pixelWidth\<close> and
  \<open>pixelHeight\<close> only: a 34 cm screen of 1920 pixels, a 52 cm screen of 2560 pixels, and
  a screen whose width is \<open>2 ^ (- 1073)\<close> cm (the double that prints as \<open>1e-323\<close>) on
  one pixel.
\<close>

definition example_calibrated :: CalibrationManager where
  "example_calibrated =
     updatePixelDimensions (updateScreenDimensions example_manager (Fin 34) (Fin 19))
       (Fin 1920) (Fin 1080)"

definition example_recalibrated :: CalibrationManager where
  "example_recalibrated =
     updatePixelDimensions (updateScreenDimensions example_manager (Fin 52) (Fin 19))
       (Fin 2560) (Fin 1440)"

definition example_tiny_width :: number where
  "example_tiny_width = Fin (2 powi (- 1073))"

definition example_tiny_screen :: CalibrationManager where
  "example_tiny_screen =
     updatePixelDimensions (updateScreenDimensions example_calibrated example_tiny_width (Fin 19))
       (Fin 1) (Fin 1080)"



section \<open>Properties of rounding\<close>

lemma powi_powr: "(2::real) powi k = 2 powr (of_int k)"
  by (simp add: powr_real_of_int power_int_def power_one_over inverse_eq_divide)

lemma powi_less_iff [simp]: "(2::real) powi m < 2 powi n \<longleftrightarrow> m < n"
  by (simp add: powi_powr)

lemma powi_le_iff [simp]: "(2::real) powi m \<le> 2 powi n \<longleftrightarrow> m \<le> n"
  by (simp add: powi_powr)

lemma exponent_le: "r \<noteq> 0 \<Longrightarrow> 2 powi exponent r \<le> \<bar>r\<bar>"
proof -
  assume "r \<noteq> 0"
  then have pos: "0 < \<bar>r\<bar>" by simp
  have "of_int (exponent r) \<le> log 2 \<bar>r\<bar>" by (simp add: exponent_def)
  then have "2 powr (of_int (exponent r)) \<le> 2 powr (log 2 \<bar>r\<bar>)"
    by (simp only: powr_le_cancel_iff [of 2] one_less_numeral_iff semiring_norm)
  also have "\<dots> = \<bar>r\<bar>" using pos by simp
  finally show ?thesis by (simp add: powi_powr)
qed

lemma exponent_gt: "r \<noteq> 0 \<Longrightarrow> \<bar>r\<bar> < 2 powi (exponent r + 1)"
proof -
  assume "r \<noteq> 0"
  then have pos: "0 < \<bar>r\<bar>" by simp
  have "log 2 \<bar>r\<bar> < of_int (exponent r + 1)" by (simp add: exponent_def)
  then have "2 powr (log 2 \<bar>r\<bar>) < 2 powr (of_int (exponent r + 1))"
    by (simp only: powr_less_cancel_iff [of 2] one_less_numeral_iff semiring_norm)
  moreover have "2 powr (log 2 \<bar>r\<bar>) = \<bar>r\<bar>" using pos by simp
  ultimately show ?thesis by (simp add: powi_powr)
qed

lemma exponent_eq:
  assumes "2 powi e \<le> \<bar>r\<bar>" and "\<bar>r\<bar> < 2 powi (e + 1)"
  shows "exponent r = e"
proof -
  have "(0::real) < 2 powi e" by (rule zero_less_power_int) simp
  then have pos: "0 < \<bar>r\<bar>" using assms(1) by linarith
  have "2 powr (of_int e) \<le> 2 powr (log 2 \<bar>r\<bar>)" using assms(1) pos by (simp add: powi_powr)
  then have 1: "of_int e \<le> log 2 \<bar>r\<bar>" by simp
  have "2 powr (log 2 \<bar>r\<bar>) < 2 powr (of_int (e + 1))" using assms(2) pos by (simp add: powi_powr)
  then have 2: "log 2 \<bar>r\<bar> < of_int (e + 1)" by simp
  show ?thesis unfolding exponent_def using 1 2 by linarith
qed


lemma round_even_of_int [simp]: "round_even (of_int n) = n"
  by (simp add: round_even_def)

lemma round_even_bounds:
  "r - 1 / 2 \<le> of_int (round_even r)" "of_int (round_even r) \<le> r + 1 / 2"
  unfolding round_even_def Let_def by (auto; linarith)+

lemma round_even_mono: "r \<le> s \<Longrightarrow> round_even r \<le> round_even s"
proof (cases "r = s")
  case True
  then show ?thesis by simp
next
  case False
  assume "r \<le> s"
  then have "r < s" using False by simp
  have "real_of_int (round_even r) \<le> r + 1 / 2" by (rule round_even_bounds)
  moreover have "s - 1 / 2 \<le> real_of_int (round_even s)" by (rule round_even_bounds)
  ultimately have "real_of_int (round_even r) < real_of_int (round_even s) + 1"
    using \<open>r < s\<close> by linarith
  then show ?thesis by linarith
qed

lemma floor_minus_cases:
  "\<lfloor>- r\<rfloor> = (if r = of_int \<lfloor>r\<rfloor> then - \<lfloor>r\<rfloor> else - \<lfloor>r\<rfloor> - 1)" for r :: real
proof (cases "r = of_int \<lfloor>r\<rfloor>")
  case True
  then have "- r = of_int (- \<lfloor>r\<rfloor>)" by simp
  then have "\<lfloor>- r\<rfloor> = - \<lfloor>r\<rfloor>" by (metis floor_of_int)
  then show ?thesis using True by simp
next
  case False
  then have a: "of_int \<lfloor>r\<rfloor> < r" using of_int_floor_le [of r] by linarith
  have b: "r < of_int \<lfloor>r\<rfloor> + 1" by linarith
  have "\<lfloor>- r\<rfloor> = - \<lfloor>r\<rfloor> - 1"
  proof (rule floor_unique)
    show "of_int (- \<lfloor>r\<rfloor> - 1) \<le> - r"
      unfolding of_int_diff of_int_minus of_int_1 using b by linarith
    show "- r < of_int (- \<lfloor>r\<rfloor> - 1) + 1"
      unfolding of_int_diff of_int_minus of_int_1 using a by linarith
  qed
  then show ?thesis using False by simp
qed

lemma round_even_minus: "round_even (- r) = - round_even r"
proof (cases "r = of_int \<lfloor>r\<rfloor>")
  case True
  then obtain n where "r = of_int n" ..
  then have "- r = of_int (- n)" by simp
  then show ?thesis using \<open>r = of_int n\<close> by (metis round_even_of_int)
next
  case False
  then have fl: "\<lfloor>- r\<rfloor> = - \<lfloor>r\<rfloor> - 1" by (simp add: floor_minus_cases)
  have par: "even (- \<lfloor>r\<rfloor> - 1) \<longleftrightarrow> odd \<lfloor>r\<rfloor>" by simp
  show ?thesis
    unfolding round_even_def Let_def fl par
    by (auto; linarith?)
qed


lemma rnd_0 [simp]: "rnd 0 = 0"
  by (simp add: rnd_def)

lemma quantum_minus [simp]: "quantum (- r) = quantum r"
  by (simp add: quantum_def exponent_def)

lemma rnd_minus: "rnd (- r) = - rnd r"
  by (simp add: rnd_def round_even_minus)

lemma quantum_ge: "- 1074 \<le> quantum r"
  by (simp add: quantum_def)

lemma scaled_less:
  assumes "r \<noteq> 0"
  shows "\<bar>r / 2 powi quantum r\<bar> < 2 ^ 53"
proof -
  have "exponent r + 1 \<le> quantum r + 53" by (simp add: quantum_def)
  then have "(2::real) powi (exponent r + 1) \<le> 2 powi (quantum r + 53)"
    by simp
  then have "\<bar>r\<bar> < 2 powi (quantum r + 53)"
    using exponent_gt [OF assms] by linarith
  also have "\<dots> = 2 powi quantum r * 2 ^ 53"
    by (simp add: power_int_add)
  finally have "\<bar>r\<bar> / 2 powi quantum r < 2 ^ 53"
    by (simp add: field_simps)
  then show ?thesis by simp
qed

lemma mantissa_le:
  assumes "r \<noteq> 0"
  shows "\<bar>round_even (r / 2 powi quantum r)\<bar> \<le> 2 ^ 53"
proof -
  let ?y = "r / 2 powi quantum r"
  have y: "- (2 ^ 53) < ?y" "?y < 2 ^ 53" using scaled_less [OF assms] by linarith+
  have "round_even ?y \<le> round_even (of_int (2 ^ 53))"
    by (rule round_even_mono) (use y in simp)
  moreover have "round_even (of_int (- (2 ^ 53))) \<le> round_even ?y"
    by (rule round_even_mono) (use y in simp)
  ultimately have "round_even ?y \<le> 2 ^ 53" "- (2 ^ 53) \<le> round_even ?y"
    by (simp_all only: round_even_of_int)
  then show ?thesis by linarith
qed

lemma rnd_exact:
  assumes "\<bar>m\<bar> < 2 ^ 53" and "- 1074 \<le> e"
  shows "rnd (of_int m * 2 powi e) = of_int m * 2 powi e"
proof (cases "m = 0")
  case True
  then show ?thesis by simp
next
  case False
  let ?r = "real_of_int m * 2 powi e"
  have nz: "?r \<noteq> 0" using False by simp
  have "\<bar>?r\<bar> = \<bar>real_of_int m\<bar> * 2 powi e" by (simp add: abs_mult)
  also have "\<dots> < 2 ^ 53 * 2 powi e"
  proof -
    have "\<bar>real_of_int m\<bar> < 2 ^ 53" using assms(1) by (metis of_int_abs of_int_less_numeral_power_cancel_iff)
    then show ?thesis by (simp add: mult_strict_right_mono)
  qed
  also have "\<dots> = 2 powi (e + 53)" by (simp add: power_int_add)
  finally have "2 powi exponent ?r < (2::real) powi (e + 53)"
    using exponent_le [OF nz] by linarith
  then have "exponent ?r < e + 53"
    by simp
  then have qe: "quantum ?r \<le> e" using assms(2) by (simp add: quantum_def)
  define q where "q = quantum ?r"
  define j where "j = nat (e - q)"
  have e: "e = q + int j" using qe by (simp add: j_def q_def)
  have pe: "(2::real) powi e = 2 powi q * 2 ^ j"
    unfolding e by (simp add: power_int_add)
  have sc: "?r / 2 powi q = of_int (m * 2 ^ j)"
    unfolding pe by simp
  have "rnd ?r = of_int (round_even (?r / 2 powi q)) * 2 powi q"
    using nz unfolding rnd_def q_def by simp
  also have "\<dots> = of_int (m * 2 ^ j) * 2 powi q"
    unfolding sc round_even_of_int ..
  also have "\<dots> = ?r"
    unfolding pe by simp
  finally show ?thesis .
qed

lemma rnd_idem [simp]: "rnd (rnd r) = rnd r"
proof (cases "r = 0")
  case True
  then show ?thesis by simp
next
  case False
  define n where "n = round_even (r / 2 powi quantum r)"
  have r: "rnd r = of_int n * 2 powi quantum r" using False by (simp add: rnd_def n_def)
  have n: "\<bar>n\<bar> \<le> 2 ^ 53" unfolding n_def by (rule mantissa_le [OF False])
  show ?thesis
  proof (cases "\<bar>n\<bar> < 2 ^ 53")
    case True
    then show ?thesis unfolding r by (rule rnd_exact) (rule quantum_ge)
  next
    case False
    then have "n = 2 ^ 53 \<or> n = - (2 ^ 53)" using n by linarith
    then have "rnd r = of_int (n div 2) * 2 powi (quantum r + 1)" "\<bar>n div 2\<bar> < 2 ^ 53"
      unfolding r by (auto simp: power_int_add)
    then show ?thesis
      using rnd_exact [of "n div 2" "quantum r + 1"] quantum_ge [of r] by simp
  qed
qed

lemma rnd_nonneg: "0 \<le> r \<Longrightarrow> 0 \<le> rnd r"
proof -
  assume "0 \<le> r"
  then have "round_even (of_int 0) \<le> round_even (r / 2 powi quantum r)"
    by (intro round_even_mono) simp
  then show ?thesis by (simp add: rnd_def del: of_int_0)
qed

lemma rnd_nonpos: "r \<le> 0 \<Longrightarrow> rnd r \<le> 0"
  using rnd_nonneg [of "- r"] by (simp add: rnd_minus)


lemma exponent_mono: "0 < r \<Longrightarrow> r \<le> s \<Longrightarrow> exponent r \<le> exponent s"
  unfolding exponent_def by (intro floor_mono) simp

lemma rnd_le_powi:
  assumes "0 < r" and "r \<le> 2 powi p" and "quantum r \<le> p"
  shows "rnd r \<le> 2 powi p"
proof -
  define q where "q = quantum r"
  define j where "j = nat (p - q)"
  have p: "p = q + int j" using assms(3) by (simp add: j_def q_def)
  have pp: "(2::real) powi p = 2 powi q * 2 ^ j" unfolding p by (simp add: power_int_add)
  have "r / 2 powi q \<le> 2 ^ j" using assms(2) unfolding pp by (simp add: field_simps)
  then have "round_even (r / 2 powi q) \<le> round_even (of_int (2 ^ j))"
    by (intro round_even_mono) simp
  then have "real_of_int (round_even (r / 2 powi q)) \<le> 2 ^ j"
    unfolding round_even_of_int by (metis of_int_le_iff of_int_numeral of_int_power)
  then have "real_of_int (round_even (r / 2 powi q)) * 2 powi q \<le> 2 ^ j * 2 powi q"
    by (intro mult_right_mono) simp_all
  then show ?thesis using assms(1) unfolding rnd_def pp q_def by (simp add: mult.commute)
qed

lemma powi_le_rnd:
  assumes "2 powi p \<le> s" and "quantum s \<le> p"
  shows "2 powi p \<le> rnd s"
proof -
  have "(0::real) < 2 powi p" by (rule zero_less_power_int) simp
  then have pos: "0 < s" using assms(1) by linarith
  define q where "q = quantum s"
  define j where "j = nat (p - q)"
  have p: "p = q + int j" using assms(2) by (simp add: j_def q_def)
  have pp: "(2::real) powi p = 2 powi q * 2 ^ j" unfolding p by (simp add: power_int_add)
  have "2 ^ j \<le> s / 2 powi q" using assms(1) unfolding pp by (simp add: field_simps)
  then have "round_even (of_int (2 ^ j)) \<le> round_even (s / 2 powi q)"
    by (intro round_even_mono) simp
  then have "2 ^ j \<le> real_of_int (round_even (s / 2 powi q))"
    unfolding round_even_of_int by (metis of_int_le_iff of_int_numeral of_int_power)
  then have "2 ^ j * 2 powi q \<le> real_of_int (round_even (s / 2 powi q)) * 2 powi q"
    by (intro mult_right_mono) simp_all
  then show ?thesis using pos unfolding rnd_def pp q_def by (simp add: mult.commute)
qed

lemma rnd_mono_pos:
  assumes "0 < r" and "r \<le> s"
  shows "rnd r \<le> rnd s"
proof -
  have pos: "0 < s" using assms by simp
  have ex: "exponent r \<le> exponent s" using assms by (rule exponent_mono)
  then have q: "quantum r \<le> quantum s" by (simp add: quantum_def)
  show ?thesis
  proof (cases "quantum r = quantum s")
    case True
    have "round_even (r / 2 powi quantum s) \<le> round_even (s / 2 powi quantum s)"
      using assms(2) by (intro round_even_mono) (simp add: divide_right_mono)
    then have "real_of_int (round_even (r / 2 powi quantum s)) * 2 powi quantum s
        \<le> real_of_int (round_even (s / 2 powi quantum s)) * 2 powi quantum s"
      by (intro mult_right_mono) simp_all
    then show ?thesis using assms(1) pos True by (simp add: rnd_def)
  next
    case False
    then have lt: "quantum r < quantum s" using q by simp
    then have qs: "quantum s = exponent s - 52"
      using quantum_ge [of r] unfolding quantum_def by linarith
    have "exponent r - 52 \<le> quantum r" by (simp add: quantum_def)
    then have er: "exponent r + 1 \<le> exponent s" using lt qs by simp
    have "r < 2 powi (exponent r + 1)" using exponent_gt [of r] assms(1) by simp
    also have "\<dots> \<le> 2 powi exponent s" using er by simp
    finally have "rnd r \<le> 2 powi exponent s"
      using assms(1) lt qs by (intro rnd_le_powi) simp_all
    moreover have "2 powi exponent s \<le> rnd s"
      using exponent_le [of s] pos qs by (intro powi_le_rnd) simp_all
    ultimately show ?thesis by simp
  qed
qed

lemma rnd_mono: "r \<le> s \<Longrightarrow> rnd r \<le> rnd s"
proof -
  assume rs: "r \<le> s"
  consider "0 < r" | "r \<le> 0" "0 \<le> s" | "s < 0" by linarith
  then show ?thesis
  proof cases
    case 1
    then show ?thesis using rs by (rule rnd_mono_pos)
  next
    case 2
    then show ?thesis using rnd_nonpos [of r] rnd_nonneg [of s] by simp
  next
    case 3
    then have "rnd (- s) \<le> rnd (- r)" using rs by (intro rnd_mono_pos) simp_all
    then show ?thesis by (simp add: rnd_minus)
  qed
qed

lemma overflow_pos [simp]: "0 < overflow"
  by (simp add: overflow_def del: power_int_numeral)

lemma is_double_rnd: "\<bar>rnd r\<bar> < overflow \<Longrightarrow> is_double (rnd r)"
  by (simp add: is_double_def)

lemma is_double_minus [simp]: "is_double (- r) \<longleftrightarrow> is_double r"
  by (auto simp: is_double_def rnd_minus)

lemma is_double_0 [simp]: "is_double 0"
  by (simp add: is_double_def)

lemma is_double_exact:
  assumes "\<bar>m\<bar> < 2 ^ 53" and "- 1074 \<le> e" and "e \<le> 971"
  shows "is_double (of_int m * 2 powi e)"
proof -
  have "\<bar>real_of_int m\<bar> < 2 ^ 53"
    using assms(1) by (metis of_int_abs of_int_less_numeral_power_cancel_iff)
  moreover have "(2::real) powi e \<le> 2 powi 971" using assms(3) by (simp only: powi_le_iff)
  ultimately have "\<bar>real_of_int m\<bar> * 2 powi e < 2 ^ 53 * 2 powi 971"
    by (intro mult_less_le_imp_less) (simp_all del: power_int_numeral)
  also have "\<dots> = overflow"
  proof -
    have "(2::real) ^ 53 = 2 powi 53" by simp
    then have "(2::real) ^ 53 * 2 powi 971 = 2 powi (53 + 971)"
      by (simp only: power_int_add [of 2 53 971]) simp
    then show ?thesis by (simp add: overflow_def)
  qed
  finally show ?thesis
    using rnd_exact [OF assms(1,2)] by (simp add: is_double_def abs_mult)
qed


lemma exponent_unit: "1 \<le> \<bar>r\<bar> \<Longrightarrow> \<bar>r\<bar> < 2 \<Longrightarrow> exponent r = 0"
  by (rule exponent_eq) simp_all

lemma exponent_shift: "r \<noteq> 0 \<Longrightarrow> exponent (r * 2 powi k) = exponent r + k"
proof (rule exponent_eq)
  assume nz: "r \<noteq> 0"
  have "2 powi exponent r * 2 powi k \<le> \<bar>r\<bar> * 2 powi k"
    using exponent_le [OF nz] by (intro mult_right_mono) simp_all
  then show "2 powi (exponent r + k) \<le> \<bar>r * 2 powi k\<bar>"
    by (simp add: power_int_add abs_mult)
  have "\<bar>r\<bar> * 2 powi k < 2 powi (exponent r + 1) * 2 powi k"
    using exponent_gt [OF nz] by (intro mult_strict_right_mono) simp_all
  then show "\<bar>r * 2 powi k\<bar> < 2 powi (exponent r + k + 1)"
    by (simp add: power_int_add abs_mult mult.commute mult.left_commute)
qed

lemma exponent_step_up: "2 \<le> \<bar>r\<bar> \<Longrightarrow> exponent r = exponent (r / 2) + 1"
  using exponent_shift [of "r / 2" 1] by auto

lemma exponent_step_down: "\<bar>r\<bar> < 1 \<Longrightarrow> r \<noteq> 0 \<Longrightarrow> exponent r = exponent (r * 2) - 1"
  using exponent_shift [of "r * 2" "- 1"] by auto

lemmas exponent_eval = exponent_unit exponent_step_up exponent_step_down



section \<open>Properties of numbers\<close>

lemma is_double_Rep [simp]: "is_double (Rep_double d)"
  and Rep_nonzero [simp]: "Rep_double d \<noteq> 0"
  using Rep_double [of d] by simp_all

lemma rnd_Rep [simp]: "rnd (Rep_double d) = Rep_double d"
  using is_double_Rep [of d] unfolding is_double_def by simp

lemma Rep_less [simp]: "\<not> overflow \<le> \<bar>Rep_double d\<bar>"
  using is_double_Rep [of d] unfolding is_double_def by simp

lemma Rep_Abs: "is_double r \<Longrightarrow> r \<noteq> 0 \<Longrightarrow> Rep_double (Abs_double r) = r"
  by (simp add: Abs_double_inverse)

lemma Rep_Abs_rnd:
  "\<not> overflow \<le> \<bar>rnd r\<bar> \<Longrightarrow> rnd r \<noteq> 0 \<Longrightarrow> Rep_double (Abs_double (rnd r)) = rnd r"
  by (intro Rep_Abs is_double_rnd) simp_all

lemma Rep_uminus [simp]: "Rep_double (Abs_double (- Rep_double d)) = - Rep_double d"
  by (rule Rep_Abs) simp_all

lemma Fin_cases [case_names overflow underflow finite]:
  obtains "overflow \<le> \<bar>rnd r\<bar>" "Fin r = Infinity (r < 0)"
  | "rnd r = 0" "Fin r = Zero (r < 0)"
  | d where "Fin r = Nonzero d" "Rep_double d = rnd r"
proof (cases "overflow \<le> \<bar>rnd r\<bar>")
  case True
  then show ?thesis using that(1) by (simp add: Fin_def Let_def)
next
  case False
  show ?thesis
  proof (cases "rnd r = 0")
    case True
    then show ?thesis using that(2) by (simp add: Fin_def Let_def not_le)
  next
    case nz: False
    have "Fin r = Nonzero (Abs_double (rnd r))"
      using False nz by (simp add: Fin_def Let_def)
    moreover have "Rep_double (Abs_double (rnd r)) = rnd r"
      using False nz by (rule Rep_Abs_rnd)
    ultimately show ?thesis using that(3) by blast
  qed
qed

lemma Fin_Rep [simp]: "Fin (Rep_double d) = Nonzero d"
  by (simp add: Fin_def Let_def Rep_double_inverse)

lemma Fin_0 [simp]: "Fin 0 = Zero False"
  by (simp add: Fin_def not_le)

lemma Fin_not_NaN [simp]: "Fin r \<noteq> NaN" "NaN \<noteq> Fin r"
  by (cases r rule: Fin_cases; simp)+

lemma rnd_neg_iff: "rnd r \<noteq> 0 \<Longrightarrow> rnd r < 0 \<longleftrightarrow> r < 0"
  using rnd_nonneg [of r] rnd_nonpos [of r] by (cases "r < 0") auto

lemma negative_Fin [simp]: "negative (Fin r) = (r < 0)"
proof (cases r rule: Fin_cases)
  case (finite d)
  then have "rnd r \<noteq> 0" by (metis Rep_nonzero)
  then show ?thesis using finite by (simp add: rnd_neg_iff)
qed simp_all


lemma uminus_uminus [simp]: "- (- a) = (a::number)"
  by (cases a) (simp_all add: Rep_double_inverse)

lemma negative_uminus: "a \<noteq> NaN \<Longrightarrow> negative (- a) = (\<not> negative a)"
  by (cases a) (auto simp: less_le)

lemma Fin_mono: "r \<le> s \<Longrightarrow> Fin r \<le> Fin s"
proof -
  assume rs: "r \<le> s"
  have m: "rnd r \<le> rnd s" using rs by (rule rnd_mono)
  show ?thesis
  proof (cases r rule: Fin_cases)
    case overflow
    show ?thesis
    proof (cases "r < 0")
      case True
      then show ?thesis using overflow by (cases s rule: Fin_cases) simp_all
    next
      case False
      then have "0 \<le> rnd r" by (simp add: rnd_nonneg)
      then have "overflow \<le> rnd s" using overflow m by simp
      then have "overflow \<le> \<bar>rnd s\<bar>" by simp
      then show ?thesis using overflow False rs
        by (simp add: Fin_def Let_def)
    qed
  next
    case underflow
    show ?thesis
    proof (cases s rule: Fin_cases)
      case overflow
      have "\<not> s < 0"
      proof
        assume "s < 0"
        then have "rnd s \<le> 0" by (simp add: rnd_nonpos)
        then have "r < 0 \<and> rnd s \<le> rnd r" using \<open>s < 0\<close> rs underflow by simp
        then show False using overflow m underflow overflow_pos by linarith
      qed
      then show ?thesis using overflow underflow by simp
    next
      case underflow
      then show ?thesis using \<open>Fin r = Zero (r < 0)\<close> by simp
    next
      case (finite d)
      then show ?thesis using underflow m by simp
    qed
  next
    case (finite d)
    show ?thesis
    proof (cases s rule: Fin_cases)
      case overflow
      have small: "\<not> overflow \<le> \<bar>rnd r\<bar>" using finite by (metis Rep_less)
      have "\<not> s < 0"
      proof
        assume "s < 0"
        then have "rnd s \<le> 0" by (simp add: rnd_nonpos)
        then show False using overflow m small by linarith
      qed
      then show ?thesis using overflow finite by simp
    next
      case underflow
      then show ?thesis using finite m by simp
    next
      case (finite e)
      then show ?thesis using \<open>Fin r = Nonzero d\<close> \<open>Rep_double d = rnd r\<close> m by simp
    qed
  qed
qed


lemma Abs_eq_iff:
  "is_double a \<Longrightarrow> a \<noteq> 0 \<Longrightarrow> is_double b \<Longrightarrow> b \<noteq> 0 \<Longrightarrow>
     (Abs_double a = Abs_double b) = (a = b)"
  by (simp add: Abs_double_inject)

lemmas number_eval =
  Fin_def Let_def overflow_def rnd_def quantum_def exponent_eval round_even_def
  Rep_Abs is_double_def Abs_eq_iff minus_number_def

text \<open>
  Rounding is accurate to half a unit in the last place: above the subnormal range the
  relative error is at most \<open>2 ^ (- 53)\<close>.
\<close>

lemma rnd_rel:
  assumes "2 powi (- 1022) \<le> \<bar>r\<bar>"
  shows "\<bar>rnd r - r\<bar> \<le> \<bar>r\<bar> / 2 ^ 53"
proof -
  have "(0::real) < 2 powi (- 1022)" by (rule zero_less_power_int) simp
  then have nz: "r \<noteq> 0" using assms by auto
  define e where "e = exponent r"
  have lo: "2 powi e \<le> \<bar>r\<bar>" using exponent_le [OF nz] by (simp add: e_def)
  have "\<bar>r\<bar> < 2 powi (e + 1)" using exponent_gt [OF nz] by (simp add: e_def)
  then have "(2::real) powi (- 1022) < 2 powi (e + 1)" using assms by linarith
  then have e: "- 1022 \<le> e" by (simp only: powi_less_iff)
  then have q: "quantum r = e - 52" by (simp add: quantum_def e_def)
  define y where "y = r / 2 powi (e - 52)"
  have r: "r = y * 2 powi (e - 52)" by (simp add: y_def)
  have "rnd r = of_int (round_even y) * 2 powi (e - 52)"
    using nz by (simp add: rnd_def q y_def)
  then have "rnd r - r = (of_int (round_even y) - y) * 2 powi (e - 52)"
    using r by (simp add: algebra_simps)
  then have "\<bar>rnd r - r\<bar> = \<bar>of_int (round_even y) - y\<bar> * 2 powi (e - 52)"
    by (simp add: abs_mult)
  also have "\<dots> \<le> (1 / 2) * 2 powi (e - 52)"
  proof (rule mult_right_mono)
    show "\<bar>of_int (round_even y) - y\<bar> \<le> 1 / 2"
      using round_even_bounds [of y] by linarith
  qed simp
  also have "\<dots> = 2 powi e / 2 ^ 53"
    by (simp add: power_int_diff)
  also have "\<dots> \<le> \<bar>r\<bar> / 2 ^ 53"
    using lo by (simp add: divide_right_mono)
  finally show ?thesis .
qed

lemma magnitude_within_times:
  assumes "magnitude_within k a" and "magnitude_within l b"
  shows "magnitude_within (k + l) (a * b)"
proof -
  have p: "(0::real) \<le> 2 powi (- k)" "(0::real) \<le> 2 powi (- l)" by simp_all
  have "2 powi (- k) * 2 powi (- l) \<le> \<bar>a\<bar> * \<bar>b\<bar>"
    using assms p by (intro mult_mono) (simp_all add: magnitude_within_def)
  moreover have "\<bar>a\<bar> * \<bar>b\<bar> \<le> 2 powi k * 2 powi l"
    using assms by (intro mult_mono) (simp_all add: magnitude_within_def)
  moreover have "(2::real) powi (- (k + l)) = 2 powi (- k) * 2 powi (- l)"
    using power_int_add [of "2::real" "- k" "- l"] by simp
  moreover have "(2::real) powi (k + l) = 2 powi k * 2 powi l"
    by (simp add: power_int_add)
  ultimately show ?thesis
    unfolding magnitude_within_def abs_mult by simp
qed

lemma magnitude_within_inverse:
  assumes "magnitude_within l b"
  shows "magnitude_within l (1 / b)"
proof -
  have p: "(0::real) < 2 powi (- l)" "(0::real) < 2 powi l" by (simp_all add: zero_less_power_int)
  have b: "2 powi (- l) \<le> \<bar>b\<bar>" "\<bar>b\<bar> \<le> 2 powi l" using assms by (simp_all add: magnitude_within_def)
  have pos: "0 < \<bar>b\<bar>" using p(1) b(1) by linarith
  have "1 / \<bar>b\<bar> \<le> 1 / 2 powi (- l)" using b(1) p(1) by (intro frac_le) simp_all
  moreover have "1 / 2 powi l \<le> 1 / \<bar>b\<bar>" using b(2) pos by (intro frac_le) simp_all
  moreover have "1 / (2::real) powi (- l) = 2 powi l" "1 / (2::real) powi l = 2 powi (- l)"
    by (simp_all add: power_int_minus divide_inverse)
  ultimately show ?thesis
    unfolding magnitude_within_def abs_divide by simp
qed

lemma magnitude_within_divide:
  assumes "magnitude_within k a" and "magnitude_within l b"
  shows "magnitude_within (k + l) (a / b)"
  using magnitude_within_times [OF assms(1) magnitude_within_inverse [OF assms(2)]] by simp

lemma Fin_cong: "rnd r = rnd s \<Longrightarrow> (r < 0) = (s < 0) \<Longrightarrow> Fin r = Fin s"
  by (simp add: Fin_def Let_def)

lemma Fin_rel:
  assumes "magnitude_within k r" and "0 \<le> k" and "k \<le> 1000"
  obtains d c where "Fin r = Nonzero d" and "Rep_double d = r * c"
    and "1 - 1 / 2 ^ 53 \<le> c" and "c \<le> 1 + 1 / 2 ^ 53"
    and "magnitude_within (k + 1) (Rep_double d)"
proof -
  have r: "2 powi (- k) \<le> \<bar>r\<bar>" "\<bar>r\<bar> \<le> 2 powi k"
    using assms(1) by (simp_all add: magnitude_within_def)
  have "(2::real) powi (- 1022) \<le> 2 powi (- k)" using assms(3) by (simp only: powi_le_iff)
  then have rel: "\<bar>rnd r - r\<bar> \<le> \<bar>r\<bar> / 2 ^ 53" using r(1) by (intro rnd_rel) linarith
  have "(0::real) < 2 powi (- k)" by (rule zero_less_power_int) simp
  then have pos: "0 < \<bar>r\<bar>" using r(1) by linarith
  then have nz: "r \<noteq> 0" by auto
  define c where "c = rnd r / r"
  have rc: "rnd r = r * c" using nz by (simp add: c_def)
  have "\<bar>c - 1\<bar> = \<bar>rnd r - r\<bar> / \<bar>r\<bar>"
    using nz by (simp add: c_def abs_divide [symmetric] diff_divide_distrib)
  also have "\<dots> \<le> (\<bar>r\<bar> / 2 ^ 53) / \<bar>r\<bar>" using rel pos by (intro divide_right_mono) simp_all
  also have "\<dots> = 1 / 2 ^ 53" using pos by simp
  finally have "\<bar>c - 1\<bar> \<le> 1 / 2 ^ 53" .
  then have c: "1 - 1 / 2 ^ 53 \<le> c" "c \<le> 1 + 1 / 2 ^ 53" by linarith+
  have c2: "1 / 2 \<le> c" "c \<le> 2" "0 < c" using c by simp_all
  have abs: "\<bar>rnd r\<bar> = \<bar>r\<bar> * c" using c2 by (simp add: rc abs_mult)
  have "\<bar>r\<bar> * c \<le> 2 powi k * 2" using r(2) c2 pos by (intro mult_mono) simp_all
  then have hi: "\<bar>rnd r\<bar> \<le> 2 powi (k + 1)" by (simp add: abs power_int_add)
  have "2 powi (- k) * (1 / 2) \<le> \<bar>r\<bar> * c" using r(1) c2 pos by (intro mult_mono) simp_all
  then have lo: "2 powi (- (k + 1)) \<le> \<bar>rnd r\<bar>"
    by (simp add: abs power_int_diff)
  have "(2::real) powi (k + 1) < 2 powi 1024" using assms(3) by (simp only: powi_less_iff)
  then have fin: "\<bar>rnd r\<bar> < overflow" using hi by (simp add: overflow_def)
  have "(0::real) < 2 powi (- (k + 1))" by (rule zero_less_power_int) simp
  then have "0 < \<bar>rnd r\<bar>" using lo by linarith
  then have nz': "rnd r \<noteq> 0" by auto
  show ?thesis
  proof (cases r rule: Fin_cases)
    case overflow
    then show ?thesis using fin by simp
  next
    case underflow
    then show ?thesis using nz' by simp
  next
    case (finite d)
    show ?thesis
    proof (rule that [of d c])
      show "Fin r = Nonzero d" by (rule finite)
      show "Rep_double d = r * c" using finite rc by simp
      show "magnitude_within (k + 1) (Rep_double d)"
        using finite lo hi by (simp add: magnitude_within_def)
    qed (rule c)+
  qed
qed

lemma rnd_last_bit:
  assumes "1 / 2 < c" and "c < 1" and t_def: "t = 2 powi (- 1074)"
  shows "rnd (c * t) = t"
proof -
  have t: "0 < t" unfolding t_def by (rule zero_less_power_int) simp
  have "(2::real) powi (- 1074 + - 1) = 2 powi (- 1074) * 2 powi (- 1)"
    by (rule power_int_add) simp
  moreover have "(- 1074 + - 1 :: int) = - 1075" by simp
  ultimately have "(2::real) powi (- 1075) = t * 2 powi (- 1)"
    unfolding t_def by (simp only:)
  then have h: "2 powi (- 1075) = t / 2" by simp
  have lo: "2 powi (- 1075) \<le> \<bar>c * t\<bar>"
    unfolding h using assms t by (simp add: abs_mult)
  have "(- 1075 + 1 :: int) = - 1074" by simp
  then have e1: "(2::real) powi (- 1075 + 1) = t" by (simp only: t_def)
  have hi: "\<bar>c * t\<bar> < 2 powi (- 1075 + 1)"
    unfolding e1 using assms t by (simp add: abs_mult)
  have "exponent (c * t) = - 1075" using lo hi by (rule exponent_eq)
  then have q: "quantum (c * t) = - 1074" by (simp add: quantum_def)
  have r: "round_even c = 1"
  proof -
    have "\<lfloor>c\<rfloor> = 0" using assms by (simp add: floor_eq_iff)
    then show ?thesis using assms by (simp add: round_even_def Let_def)
  qed
  have nz: "c * t \<noteq> 0" using assms t by simp
  have "rnd (c * t) =
        of_int (round_even (c * t / 2 powi quantum (c * t))) * 2 powi quantum (c * t)"
    by (simp only: rnd_def nz if_False)
  then have "rnd (c * t) = of_int (round_even (c * t / t)) * t"
    unfolding q t_def [symmetric] .
  then show ?thesis using t r by simp
qed



section \<open>Arithmetic of numbers\<close>

lemma number_minus_zero: "a - Zero False = (a::number)"
  by (cases a) (simp_all add: minus_number_def)

lemma number_less_not_le: "Zero False < a \<Longrightarrow> \<not> a \<le> Zero False"
  by (cases a) simp_all




lemma Fin_double: "is_double r \<Longrightarrow> r \<noteq> 0 \<Longrightarrow> Fin r = Nonzero (Abs_double r)"
  by (simp add: Fin_def Let_def is_double_def not_le)

lemma Fin_Nonzero:
  assumes "is_double r" and "r \<noteq> 0"
  obtains d where "Fin r = Nonzero d" "Rep_double d = r"
  using Fin_double [OF assms] Rep_Abs [OF assms] by blast

lemma is_double_consts:
  "is_double 20" "is_double 150" "is_double (1 / 2)" "is_double 2"
  by (simp_all add: number_eval)

lemma clamp_20_150:
  "(e < Fin 20 \<longrightarrow> Math_max (Fin 20) (Math_min (Fin 150) e) = Fin 20) \<and>
   (Fin 150 < e \<longrightarrow> Math_max (Fin 20) (Math_min (Fin 150) e) = Fin 150) \<and>
   (\<not> e < Fin 20 \<and> \<not> Fin 150 < e \<longrightarrow> Math_max (Fin 20) (Math_min (Fin 150) e) = e)"
proof -
  obtain lo where lo: "Fin 20 = Nonzero lo" "Rep_double lo = 20"
    by (rule Fin_Nonzero [of 20]) (simp_all add: is_double_consts)
  obtain hi where hi: "Fin 150 = Nonzero hi" "Rep_double hi = 150"
    by (rule Fin_Nonzero [of 150]) (simp_all add: is_double_consts)
  show ?thesis unfolding lo(1) hi(1)
    by (cases e) (auto simp: lo(2) hi(2) Rep_double_inject [symmetric])
qed

lemma Fin_nonneg: "0 \<le> r \<Longrightarrow> Fin 0 \<le> Fin r"
  by (rule Fin_mono)

lemma nonneg_not_NaN: "Fin 0 \<le> a \<Longrightarrow> a \<noteq> NaN"
  by (cases a) simp_all

lemma minus_not_NaN: "is_Fin a \<Longrightarrow> is_Fin b \<Longrightarrow> a - b \<noteq> NaN"
  by (cases a; cases b) (simp_all add: minus_number_def)

lemma pow2_nonneg: "a \<noteq> NaN \<Longrightarrow> Fin 0 \<le> Math_pow a 2"
proof (cases a)
  case (Nonzero d)
  have "Fin 0 \<le> Fin ((Rep_double d)\<^sup>2)" by (rule Fin_nonneg) simp
  then show ?thesis using Nonzero by (simp add: Math_pow_def)
qed (simp_all add: Math_pow_def)

lemma plus_nonneg: "Fin 0 \<le> a \<Longrightarrow> Fin 0 \<le> b \<Longrightarrow> Fin 0 \<le> a + b"
proof (cases a; cases b)
  fix d e
  assume "Fin 0 \<le> a" "Fin 0 \<le> b" "a = Nonzero d" "b = Nonzero e"
  then have "Fin 0 \<le> Fin (Rep_double d + Rep_double e)" by (intro Fin_nonneg) simp
  then show "Fin 0 \<le> a + b" using \<open>a = Nonzero d\<close> \<open>b = Nonzero e\<close> by simp
qed simp_all

lemma sqrt_nonneg: "Fin 0 \<le> a \<Longrightarrow> Fin 0 \<le> Math_sqrt a"
proof (cases a)
  case (Nonzero d)
  assume "Fin 0 \<le> a"
  then have "\<not> Rep_double d < 0" using Nonzero by simp
  moreover have "Fin 0 \<le> Fin (sqrt (Rep_double d))" by (rule Fin_nonneg) (use calculation in simp)
  ultimately show ?thesis using Nonzero by simp
qed simp_all

lemma times_pos_nonneg:
  assumes "Fin 0 \<le> a" and "0 < Rep_double h"
  shows "Fin 0 \<le> a * Nonzero h"
proof (cases a)
  case (Nonzero d)
  then have "Fin 0 \<le> Fin (Rep_double d * Rep_double h)"
    using assms by (intro Fin_nonneg) simp
  then show ?thesis using Nonzero by simp
qed (use assms in simp_all)

lemma divide_pos_nonneg:
  assumes "Fin 0 \<le> a" and "0 < Rep_double h"
  shows "Fin 0 \<le> a / Nonzero h"
proof (cases a)
  case (Nonzero d)
  then have "Fin 0 \<le> Fin (Rep_double d / Rep_double h)"
    using assms by (intro Fin_nonneg) simp
  then show ?thesis using Nonzero by simp
qed (use assms in simp_all)

lemma Fin_literal_pos:
  assumes "0 < rnd r" and "rnd r < overflow"
  obtains d where "Fin r = Nonzero d" "Rep_double d = rnd r" "0 < Rep_double d"
  using assms by (cases r rule: Fin_cases) auto

lemma clamp_half_two:
  assumes "d \<noteq> NaN"
  shows "Fin 0.5 \<le> Math_max (Fin 0.5) (Math_min (Fin 2.0) d) \<and>
         Math_max (Fin 0.5) (Math_min (Fin 2.0) d) \<le> Fin 2.0 \<and>
         Fin 0 < Math_max (Fin 0.5) (Math_min (Fin 2.0) d)"
proof -
  obtain lo where lo: "Fin 0.5 = Nonzero lo" "Rep_double lo = 1 / 2"
    by (rule Fin_Nonzero [of "0.5"]) (simp_all add: is_double_consts)
  obtain hi where hi: "Fin 2.0 = Nonzero hi" "Rep_double hi = 2"
    by (rule Fin_Nonzero [of "2.0"]) (simp_all add: is_double_consts)
  show ?thesis using assms unfolding lo(1) hi(1)
    by (cases d) (auto simp: lo(2) hi(2))
qed

lemma depth_clamped:
  assumes "is_Fin a1" "is_Fin b1" "is_Fin a2" "is_Fin b2"
    and "is_Fin a3" "is_Fin b3" "is_Fin a4" "is_Fin b4"
  shows "(Math_sqrt (Math_pow (a2 - a1) 2 + Math_pow (b2 - b1) 2) +
          Math_sqrt (Math_pow (a4 - a3) 2 + Math_pow (b4 - b3) 2) * Fin 0.5) / Fin 0.15 \<noteq> NaN"
proof -
  obtain h where h: "Fin 0.5 = Nonzero h" "0 < Rep_double h"
    by (rule Fin_literal_pos [of "0.5"]) (simp_all add: number_eval)
  obtain q where q: "Fin 0.15 = Nonzero q" "0 < Rep_double q"
    by (rule Fin_literal_pos [of "0.15"]) (simp_all add: number_eval)
  have 1: "Fin 0 \<le> Math_sqrt (Math_pow (a2 - a1) 2 + Math_pow (b2 - b1) 2)"
    using assms by (intro sqrt_nonneg plus_nonneg pow2_nonneg minus_not_NaN)
  have 2: "Fin 0 \<le> Math_sqrt (Math_pow (a4 - a3) 2 + Math_pow (b4 - b3) 2)"
    using assms by (intro sqrt_nonneg plus_nonneg pow2_nonneg minus_not_NaN)
  have "Fin 0 \<le> (Math_sqrt (Math_pow (a2 - a1) 2 + Math_pow (b2 - b1) 2) +
          Math_sqrt (Math_pow (a4 - a3) 2 + Math_pow (b4 - b3) 2) * Nonzero h) / Nonzero q"
    using 1 2 h(2) q(2) by (intro divide_pos_nonneg plus_nonneg times_pos_nonneg)
  then show ?thesis unfolding h(1) q(1) by (rule nonneg_not_NaN)
qed








text \<open>
  The estimate of the viewing distance: the five roundings of
  \<open>a * w / (f * p * (w / p))\<close> leave a relative error below \<open>2 ^ (- 50)\<close>, and the clamp
  to \<open>[20, 150]\<close> keeps it.
\<close>

lemma ratio_bounds:
  fixes c1 c2 c3 c4 c5 :: real
  assumes "1 - 1 / 2 ^ 53 \<le> c1" "c1 \<le> 1 + 1 / 2 ^ 53"
    and "1 - 1 / 2 ^ 53 \<le> c2" "c2 \<le> 1 + 1 / 2 ^ 53"
    and "1 - 1 / 2 ^ 53 \<le> c3" "c3 \<le> 1 + 1 / 2 ^ 53"
    and "1 - 1 / 2 ^ 53 \<le> c4" "c4 \<le> 1 + 1 / 2 ^ 53"
    and "1 - 1 / 2 ^ 53 \<le> c5" "c5 \<le> 1 + 1 / 2 ^ 53"
  shows "1 - 1 / 2 ^ 50 \<le> c4 * c5 / (c1 * c2 * c3)"
    and "c4 * c5 / (c1 * c2 * c3) \<le> 1 + 1 / 2 ^ 50"
proof -
  define l :: real where "l = 1 - 1 / 2 ^ 53"
  define u :: real where "u = 1 + 1 / 2 ^ 53"
  have l: "0 < l" and u: "0 < u" by (simp_all add: l_def u_def)
  have b: "l \<le> c1" "c1 \<le> u" "l \<le> c2" "c2 \<le> u" "l \<le> c3" "c3 \<le> u"
    "l \<le> c4" "c4 \<le> u" "l \<le> c5" "c5 \<le> u"
    using assms by (simp_all add: l_def u_def)
  have n1: "l * l \<le> c4 * c5" using b l by (intro mult_mono) simp_all
  have n2: "c4 * c5 \<le> u * u" using b l by (intro mult_mono) simp_all
  have d1: "l * l * l \<le> c1 * c2 * c3" using b l by (intro mult_mono) simp_all
  have d2: "c1 * c2 * c3 \<le> u * u * u" using b l by (intro mult_mono mult_nonneg_nonneg) simp_all
  have cp: "0 < c1" "0 < c2" "0 < c3" "0 < c4" "0 < c5" using b l by linarith+
  have n0: "0 \<le> c4 * c5" and d0: "0 < c1 * c2 * c3" and u2: "0 \<le> u * u" and l3: "0 < l * l * l"
    using cp l u by simp_all
  have "1 - 1 / 2 ^ 50 \<le> l * l / (u * u * u)" by (simp add: l_def u_def)
  also have "\<dots> \<le> c4 * c5 / (c1 * c2 * c3)"
    by (rule frac_le [OF n0 n1 d0 d2])
  finally show "1 - 1 / 2 ^ 50 \<le> c4 * c5 / (c1 * c2 * c3)" .
  have "c4 * c5 / (c1 * c2 * c3) \<le> u * u / (l * l * l)"
    by (rule frac_le [OF u2 n2 l3 d1])
  also have "\<dots> \<le> 1 + 1 / 2 ^ 50" by (simp add: l_def u_def)
  finally show "c4 * c5 / (c1 * c2 * c3) \<le> 1 + 1 / 2 ^ 50" .
qed

lemma raw_estimate:
  assumes a: "magnitude_within 100 (Rep_double a)" and w: "magnitude_within 100 (Rep_double w)"
    and f: "magnitude_within 100 (Rep_double f)" and p: "magnitude_within 100 (Rep_double p)"
  obtains d c where
    "Nonzero a * Nonzero w / (Nonzero f * Nonzero p * (Nonzero w / Nonzero p)) = Nonzero d"
    and "Rep_double d = Rep_double a / Rep_double f * c"
    and "1 - 1 / 2 ^ 50 \<le> c" and "c \<le> 1 + 1 / 2 ^ 50"
proof -
  have "magnitude_within 200 (Rep_double f * Rep_double p)"
    using magnitude_within_times [OF f p] by simp
  then obtain fp c1 where fp: "Fin (Rep_double f * Rep_double p) = Nonzero fp"
      "Rep_double fp = Rep_double f * Rep_double p * c1"
      "1 - 1 / 2 ^ 53 \<le> c1" "c1 \<le> 1 + 1 / 2 ^ 53" "magnitude_within 201 (Rep_double fp)"
    by (rule Fin_rel [of 200]) simp_all
  have "magnitude_within 200 (Rep_double w / Rep_double p)"
    using magnitude_within_divide [OF w p] by simp
  then obtain cx c2 where cx: "Fin (Rep_double w / Rep_double p) = Nonzero cx"
      "Rep_double cx = Rep_double w / Rep_double p * c2"
      "1 - 1 / 2 ^ 53 \<le> c2" "c2 \<le> 1 + 1 / 2 ^ 53" "magnitude_within 201 (Rep_double cx)"
    by (rule Fin_rel [of 200]) simp_all
  have "magnitude_within 402 (Rep_double fp * Rep_double cx)"
    using magnitude_within_times [OF fp(5) cx(5)] by simp
  then obtain fc c3 where fc: "Fin (Rep_double fp * Rep_double cx) = Nonzero fc"
      "Rep_double fc = Rep_double fp * Rep_double cx * c3"
      "1 - 1 / 2 ^ 53 \<le> c3" "c3 \<le> 1 + 1 / 2 ^ 53" "magnitude_within 403 (Rep_double fc)"
    by (rule Fin_rel [of 402]) simp_all
  have "magnitude_within 200 (Rep_double a * Rep_double w)"
    using magnitude_within_times [OF a w] by simp
  then obtain num c4 where num: "Fin (Rep_double a * Rep_double w) = Nonzero num"
      "Rep_double num = Rep_double a * Rep_double w * c4"
      "1 - 1 / 2 ^ 53 \<le> c4" "c4 \<le> 1 + 1 / 2 ^ 53" "magnitude_within 201 (Rep_double num)"
    by (rule Fin_rel [of 200]) simp_all
  have "magnitude_within 604 (Rep_double num / Rep_double fc)"
    using magnitude_within_divide [OF num(5) fc(5)] by simp
  then obtain raw c5 where raw: "Fin (Rep_double num / Rep_double fc) = Nonzero raw"
      "Rep_double raw = Rep_double num / Rep_double fc * c5"
      "1 - 1 / 2 ^ 53 \<le> c5" "c5 \<le> 1 + 1 / 2 ^ 53"
    by (rule Fin_rel [of 604]) simp_all
  have pos: "0 < c1" "0 < c2" "0 < c3"
    using fp(3) cx(3) fc(3) by simp_all
  show ?thesis
  proof (rule that [of raw "c4 * c5 / (c1 * c2 * c3)"])
    show "Nonzero a * Nonzero w / (Nonzero f * Nonzero p * (Nonzero w / Nonzero p)) = Nonzero raw"
      by (simp add: fp(1) cx(1) fc(1) num(1) raw(1))
    show "Rep_double raw = Rep_double a / Rep_double f * (c4 * c5 / (c1 * c2 * c3))"
      using pos by (simp add: raw(2) num(2) fc(2) fp(2) cx(2))
    show "1 - 1 / 2 ^ 50 \<le> c4 * c5 / (c1 * c2 * c3)"
      by (rule ratio_bounds(1) [OF fp(3,4) cx(3,4) fc(3,4) num(3,4) raw(3,4)])
    show "c4 * c5 / (c1 * c2 * c3) \<le> 1 + 1 / 2 ^ 50"
      by (rule ratio_bounds(2) [OF fp(3,4) cx(3,4) fc(3,4) num(3,4) raw(3,4)])
  qed
qed

lemma clamp_val:
  "val (Math_max (Fin 20) (Math_min (Fin 150) (Nonzero d))) = max 20 (min 150 (Rep_double d)) \<and>
   is_Fin (Math_max (Fin 20) (Math_min (Fin 150) (Nonzero d)))"
proof -
  obtain lo where lo: "Fin 20 = Nonzero lo" "Rep_double lo = 20"
    by (rule Fin_Nonzero [of 20]) (simp_all add: is_double_consts)
  obtain hi where hi: "Fin 150 = Nonzero hi" "Rep_double hi = 150"
    by (rule Fin_Nonzero [of 150]) (simp_all add: is_double_consts)
  show ?thesis
    unfolding lo(1) hi(1) by (auto simp: lo(2) hi(2) max_def min_def)
qed

lemma clamp_close:
  fixes t c :: real
  assumes "1 - 1 / 2 ^ 50 \<le> c" and "c \<le> 1 + 1 / 2 ^ 50"
  shows "\<bar>max 20 (min 150 (t * c)) - max 20 (min 150 t)\<bar> \<le> max 20 (min 150 t) / 2 ^ 50"
proof (cases "0 \<le> t")
  case True
  have "t * (1 - 1 / 2 ^ 50) \<le> t * c" "t * c \<le> t * (1 + 1 / 2 ^ 50)"
    by (rule mult_left_mono [OF assms(1) True], rule mult_left_mono [OF assms(2) True])
  then have "t - t / 2 ^ 50 \<le> t * c" "t * c \<le> t + t / 2 ^ 50"
    unfolding right_diff_distrib distrib_left by simp_all
  then show ?thesis
    using True assms by (simp add: max_def min_def abs_if)
next
  case False
  have "0 < c" using assms(1) by simp
  then have "t * c < 0" using False by (simp add: mult_neg_pos)
  then show ?thesis using False by (simp add: max_def min_def)
qed

lemma magnitude_within_val:
  assumes "magnitude_within k (val a)"
  obtains d where "a = Nonzero d"
proof -
  have "(0::real) < 2 powi (- k)" by (rule zero_less_power_int) simp
  then have "val a \<noteq> 0" using assms unfolding magnitude_within_def by linarith
  then show ?thesis using that by (cases a) simp_all
qed

lemma estimate_close:
  assumes "magnitude_within 100 (val (screenWidthCm (data m)))"
    and "magnitude_within 100 (val (pixelWidth (data m)))"
    and "magnitude_within 100 (val f)"
    and "magnitude_within 100 (val (case arg of None \<Rightarrow> Fin 15 | Some a \<Rightarrow> a))"
  shows "is_Fin (estimateViewingDistanceFromFaceWidth m f arg) \<and>
         \<bar>val (estimateViewingDistanceFromFaceWidth m f arg) -
            max 20 (min 150 (val (case arg of None \<Rightarrow> Fin 15 | Some a \<Rightarrow> a) / val f))\<bar>
         \<le> max 20 (min 150 (val (case arg of None \<Rightarrow> Fin 15 | Some a \<Rightarrow> a) / val f)) / 2 ^ 50"
proof -
  obtain w where w: "screenWidthCm (data m) = Nonzero w"
    using assms(1) by (rule magnitude_within_val)
  obtain p where p: "pixelWidth (data m) = Nonzero p"
    using assms(2) by (rule magnitude_within_val)
  obtain fd where fd: "f = Nonzero fd"
    using assms(3) by (rule magnitude_within_val)
  obtain a where a: "(case arg of None \<Rightarrow> Fin 15 | Some a \<Rightarrow> a) = Nonzero a"
    using assms(4) by (rule magnitude_within_val)
  have m: "magnitude_within 100 (Rep_double a)" "magnitude_within 100 (Rep_double w)"
    "magnitude_within 100 (Rep_double fd)" "magnitude_within 100 (Rep_double p)"
    using assms by (simp_all add: w p fd a)
  obtain d c where d: "Nonzero a * Nonzero w / (Nonzero fd * Nonzero p * (Nonzero w / Nonzero p)) = Nonzero d"
    "Rep_double d = Rep_double a / Rep_double fd * c"
    "1 - 1 / 2 ^ 50 \<le> c" "c \<le> 1 + 1 / 2 ^ 50"
    using m by (rule raw_estimate)
  have e: "estimateViewingDistanceFromFaceWidth m f arg =
           Math_max (Fin 20) (Math_min (Fin 150) (Nonzero d))"
    unfolding estimateViewingDistanceFromFaceWidth_def getCmPerPixel_def Let_def a
    using d(1) by (simp add: w p fd)
  have t: "val (case arg of None \<Rightarrow> Fin 15 | Some a \<Rightarrow> a) / val f =
           Rep_double a / Rep_double fd"
    by (simp add: a fd)
  show ?thesis
    unfolding e t using clamp_val [of d] clamp_close [OF d(3,4), of "Rep_double a / Rep_double fd"]
    by (simp add: d(2))
qed

lemma underflow_estimate:
  "Fin 15 * example_tiny_width / (Fin 0.3 * Fin 1 * (example_tiny_width / Fin 1)) = Fin 30"
proof -
  define t :: real where "t = 2 powi (- 1074)"
  define q :: real where "q = 5404319552844595 / 2 ^ 54"
  have t: "0 < t" unfolding t_def by (rule zero_less_power_int) simp
  have "(2::real) powi (- 1074 + 1) = 2 powi (- 1074) * 2 powi 1"
    by (rule power_int_add) simp
  moreover have "(- 1074 + 1 :: int) = - 1073" by simp
  ultimately have "(2::real) powi (- 1073) = t * 2 powi 1"
    unfolding t_def by (simp only:)
  then have t2: "2 powi (- 1073) = 2 * t" by simp
  have "is_double (of_int 1 * 2 powi (- 1074))" by (rule is_double_exact) simp_all
  then have dt: "is_double t" unfolding t_def [symmetric] by simp
  have "is_double (of_int 2 * 2 powi (- 1074))" by (rule is_double_exact) simp_all
  then have dw: "is_double (2 * t)" unfolding t_def [symmetric] by simp
  have "is_double (of_int 30 * 2 powi (- 1074))" by (rule is_double_exact) simp_all
  then have dn: "is_double (30 * t)" unfolding t_def [symmetric] by simp
  obtain w where w: "Fin (2 * t) = Nonzero w" "Rep_double w = 2 * t"
    by (rule Fin_Nonzero [of "2 * t"]) (use dw t in simp_all)
  obtain n where n: "Fin (30 * t) = Nonzero n" "Rep_double n = 30 * t"
    by (rule Fin_Nonzero [of "30 * t"]) (use dn t in simp_all)
  obtain u where u: "Fin t = Nonzero u" "Rep_double u = t"
    by (rule Fin_Nonzero [of t]) (use dt t in simp_all)
  obtain one where one: "Fin 1 = Nonzero one" "Rep_double one = 1"
    by (rule Fin_Nonzero [of 1]) (simp_all add: number_eval)
  obtain a where a: "Fin 15 = Nonzero a" "Rep_double a = 15"
    by (rule Fin_Nonzero [of 15]) (simp_all add: number_eval)
  have "Fin 0.3 = Fin q" by (simp add: q_def number_eval)
  moreover obtain f where f: "Fin q = Nonzero f" "Rep_double f = q"
    by (rule Fin_Nonzero [of q]) (simp_all add: q_def number_eval)
  ultimately have f3: "Fin 0.3 = Nonzero f" by simp
  have fp: "Nonzero f * Nonzero one = Nonzero f" by (simp add: one(2))
  have cx: "Nonzero w / Nonzero one = Nonzero w" by (simp add: one(2))
  have "rnd (2 * q * t) = t"
    by (rule rnd_last_bit [OF _ _ t_def]) (simp_all add: q_def)
  moreover have "rnd t = t" using dt by (simp add: is_double_def)
  ultimately have "rnd (q * (2 * t)) = rnd t" by (simp add: mult_ac)
  moreover have "(q * (2 * t) < 0) = (t < 0)" using t by (simp add: q_def not_less)
  ultimately have "Fin (q * (2 * t)) = Fin t" by (rule Fin_cong)
  then have fc: "Nonzero f * Nonzero w = Nonzero u" by (simp add: f(2) w(2) u(1))
  have num: "Nonzero a * Nonzero w = Nonzero n" using n(1) by (simp add: a(2) w(2))
  have raw: "Nonzero n / Nonzero u = Fin 30" using t by (simp add: n(2) u(2))
  show ?thesis
    unfolding example_tiny_width_def t2 f3 one(1) a(1) w(1) fp cx fc num raw ..
qed

lemma example_tiny_width_pos: "Fin 0 < example_tiny_width"
proof -
  define t :: real where "t = 2 powi (- 1073)"
  have t: "0 < t" unfolding t_def by (rule zero_less_power_int) simp
  have "is_double (of_int 1 * 2 powi (- 1073))" by (rule is_double_exact) simp_all
  then have "is_double t" unfolding t_def [symmetric] by simp
  then obtain w where w: "Fin t = Nonzero w" "Rep_double w = t"
    by (rule Fin_Nonzero [of t]) (use t in simp_all)
  show ?thesis
    unfolding example_tiny_width_def t_def [symmetric] w(1) using t by (simp add: w(2))
qed



section \<open>Off-axis projector\<close>

lemma example_offAxisCamera_fields:
  "screenWidthWorld example_offAxisCamera = Fin 0.34"
  "screenHeightWorld example_offAxisCamera = Fin 0.19"
  "nearPlane example_offAxisCamera = Fin 0.05"
  "farPlane example_offAxisCamera = Fin 1000"
  "calibration example_offAxisCamera = DEFAULT_CALIBRATION"
  by (simp_all add: example_offAxisCamera_def OffAxisCamera_new_def DEFAULT_CALIBRATION_def
      number_eval)


text \<open>
  Claim C1. \<open>updateProjectionMatrix\<close> guards the degenerate eye positions: when
  \<open>eye.z \<le> 0\<close> it returns at once and the whole object, the projection matrix of the
  camera included, is what it was; when \<open>eye.z > 0\<close> the projection matrix is written
  anew by \<open>makePerspective\<close>, from the frustum bounds of this eye position, and the
  inverse matrix is the inverse of the new matrix.
\<close>

theorem updateProjectionMatrix_guard:
  "(z headPosition \<le> Fin 0 \<longrightarrow> updateProjectionMatrix three s headPosition = s) \<and>
   (Fin 0 < z headPosition \<longrightarrow>
      projectionMatrix (camera (updateProjectionMatrix three s headPosition)) =
        makePerspective three
          (((- screenWidthWorld s) / Fin 2 - x headPosition) * (nearPlane s / z headPosition))
          ((screenWidthWorld s / Fin 2 - x headPosition) * (nearPlane s / z headPosition))
          ((screenHeightWorld s / Fin 2 - y headPosition) * (nearPlane s / z headPosition))
          (((- screenHeightWorld s) / Fin 2 - y headPosition) * (nearPlane s / z headPosition))
          (nearPlane s) (farPlane s) \<and>
      projectionMatrixInverse (camera (updateProjectionMatrix three s headPosition)) =
        invert three (projectionMatrix (camera (updateProjectionMatrix three s headPosition))))"
  by (simp add: updateProjectionMatrix_def Let_def number_minus_zero number_less_not_le)

theorem updateProjectionMatrix_guard_witness:
  "z \<lparr>x = Fin 0.1, y = Fin 0, z = Fin (- 1)\<rparr> \<le> Fin 0 \<and>
   updateProjectionMatrix example_three example_offAxisCamera
       \<lparr>x = Fin 0.1, y = Fin 0, z = Fin (- 1)\<rparr>
     = example_offAxisCamera \<and>
   Fin 0 < z \<lparr>x = Fin 0.03, y = Fin 0.005, z = Fin 0.5\<rparr> \<and>
   projectionMatrix (camera (updateProjectionMatrix example_three example_offAxisCamera
       \<lparr>x = Fin 0.03, y = Fin 0.005, z = Fin 0.5\<rparr>))
     = [Fin (- 0.020000000000000004), Fin 0.014000000000000002, Fin 0.009,
        Fin (- 0.010000000000000002), Fin 0.05, Fin 1000]"
proof -
  have g: "z \<lparr>x = Fin 0.1, y = Fin 0, z = Fin (- 1)\<rparr> \<le> Fin 0"
    "Fin 0 < z \<lparr>x = Fin 0.03, y = Fin 0.005, z = Fin 0.5\<rparr>"
    by (simp_all add: number_eval)
  have v: "[(- Fin 0.34 / Fin 2 - Fin 0.03) * (Fin 0.05 / Fin 0.5),
            (Fin 0.34 / Fin 2 - Fin 0.03) * (Fin 0.05 / Fin 0.5),
            (Fin 0.19 / Fin 2 - Fin 0.005) * (Fin 0.05 / Fin 0.5),
            (- Fin 0.19 / Fin 2 - Fin 0.005) * (Fin 0.05 / Fin 0.5)] =
           [Fin (- 0.020000000000000004), Fin 0.014000000000000002, Fin 0.009,
            Fin (- 0.010000000000000002)]"
    by (simp add: number_eval)
  show ?thesis
    using g v
      updateProjectionMatrix_guard
        [of "\<lparr>x = Fin 0.1, y = Fin 0, z = Fin (- 1)\<rparr>" example_three example_offAxisCamera]
      updateProjectionMatrix_guard
        [of "\<lparr>x = Fin 0.03, y = Fin 0.005, z = Fin 0.5\<rparr>" example_three example_offAxisCamera]
    by (simp add: example_offAxisCamera_fields example_three_def)
qed


text \<open>
  The calibration of an object is the one given to the constructor or to the last
  \<open>updateCalibration\<close>; the other methods leave it and the screen dimensions alone, so
  the screen dimensions in world units are always those of the calibration.
\<close>

lemma calibration_set:
  "calibration (OffAxisCamera_new cam cal) = cal"
  "calibration (updateCalibration s cal) = cal"
  by (simp_all add: OffAxisCamera_new_def updateCalibration_def Let_def)

lemma updateProjectionMatrix_fields:
  "calibration (updateProjectionMatrix three s headPosition) = calibration s"
  "screenWidthWorld (updateProjectionMatrix three s headPosition) = screenWidthWorld s"
  "screenHeightWorld (updateProjectionMatrix three s headPosition) = screenHeightWorld s"
  by (simp_all add: updateProjectionMatrix_def Let_def)

lemma setCameraPosition_fields:
  "calibration (setCameraPosition s headPosition) = calibration s"
  "screenWidthWorld (setCameraPosition s headPosition) = screenWidthWorld s"
  "screenHeightWorld (setCameraPosition s headPosition) = screenHeightWorld s"
  by (simp_all add: setCameraPosition_def)

lemma updateFromHeadPose_fields:
  "calibration (updateFromHeadPose three s headPose) = calibration s"
  "screenWidthWorld (updateFromHeadPose three s headPose) = screenWidthWorld s"
  "screenHeightWorld (updateFromHeadPose three s headPose) = screenHeightWorld s"
  by (simp_all add: updateFromHeadPose_def Let_def updateProjectionMatrix_fields
      setCameraPosition_fields)

lemma reachable_screen_world:
  "reachable three s \<Longrightarrow>
     screenWidthWorld s = screenWidthCm (calibration s) * Fin 0.01 \<and>
     screenHeightWorld s = screenHeightCm (calibration s) * Fin 0.01"
proof (induction rule: reachable.induct)
  case (constructed cam cal)
  show ?case by (simp add: OffAxisCamera_new_def Let_def)
next
  case (calibrated s cal)
  show ?case by (simp add: updateCalibration_def Let_def)
next
  case (projected s headPosition)
  then show ?case by (simp add: updateProjectionMatrix_fields)
next
  case (placed s headPosition)
  then show ?case by (simp add: setCameraPosition_fields)
next
  case (updated s headPose)
  then show ?case by (simp add: updateFromHeadPose_fields)
qed

lemma example_updated_calibration:
  "calibration
     (updateFromHeadPose example_three
        (updateCalibration example_offAxisCamera (getCalibration example_manager))
        \<lparr>x = Fin 0.5, y = Fin 0.5, z = Fin 1\<rparr>) = DEFAULT_CALIBRATION"
  by (simp add: updateFromHeadPose_fields calibration_set getCalibration_def spread_def
      no_properties_def example_manager_def CalibrationManager_new_def loadCalibration_def
      DEFAULT_CALIBRATION_def)


text \<open>
  Claim C2, as the code has it. For every pose and the calibration that the object
  holds (any calibration: the object is constructed with it or updated to it),
  \<open>headPoseToWorldPosition\<close> returns
  \<open>x = -(pose.x - 0.5) * (screenWidthCm * 0.01) * 1.5\<close>,
  \<open>y = -(pose.y - 0.5) * (screenHeightCm * 0.01) * 1.5\<close> and
  \<open>z = (viewingDistanceCm * 0.01) * (1.0 / pose.z)\<close>: the code multiplies by the rounded
  reciprocal of \<open>pose.z\<close>, it does not divide by \<open>pose.z\<close>. The two differ in the last
  bit: with the viewing distance 60 and \<open>pose.z = 0.7\<close> the code returns
  \<open>0.8571428571428571\<close>, and the quotient \<open>(60 * 0.01) / 0.7\<close> is \<open>0.8571428571428572\<close>.
\<close>

theorem headPoseToWorldPosition_formula:
  assumes "reachable three s"
  shows "headPoseToWorldPosition s pose =
       \<lparr>x = - (x pose - Fin 0.5) * (screenWidthCm (calibration s) * Fin 0.01) * Fin 1.5,
        y = - (y pose - Fin 0.5) * (screenHeightCm (calibration s) * Fin 0.01) * Fin 1.5,
        z = viewingDistanceCm (calibration s) * Fin 0.01 * (Fin 1.0 / z pose)\<rparr>"
  using reachable_screen_world [OF assms]
  by (simp add: headPoseToWorldPosition_def Let_def)

theorem headPoseToWorldPosition_formula_witness:
  "reachable example_three
     (updateFromHeadPose example_three
        (updateCalibration example_offAxisCamera (getCalibration example_manager))
        \<lparr>x = Fin 0.5, y = Fin 0.5, z = Fin 1\<rparr>) \<and>
   headPoseToWorldPosition
     (updateFromHeadPose example_three
        (updateCalibration example_offAxisCamera (getCalibration example_manager))
        \<lparr>x = Fin 0.5, y = Fin 0.5, z = Fin 1\<rparr>)
     \<lparr>x = Fin 0.25, y = Fin 0.75, z = Fin 2\<rparr> =
     \<lparr>x = Fin 0.1275, y = Fin (- 0.07125000000000001), z = Fin 0.3\<rparr>"
proof -
  have r: "reachable example_three
     (updateFromHeadPose example_three
        (updateCalibration example_offAxisCamera (getCalibration example_manager))
        \<lparr>x = Fin 0.5, y = Fin 0.5, z = Fin 1\<rparr>)"
    unfolding example_offAxisCamera_def
    by (intro reachable.updated reachable.calibrated reachable.constructed)
  have v: "- (Fin 0.25 - Fin 0.5) * (Fin 34 * Fin 0.01) * Fin 1.5 = Fin 0.1275"
    "- (Fin 0.75 - Fin 0.5) * (Fin 19 * Fin 0.01) * Fin 1.5 = Fin (- 0.07125000000000001)"
    "Fin 60 * Fin 0.01 * (Fin 1.0 / Fin 2) = Fin 0.3"
    by (simp_all add: number_eval)
  show ?thesis
    using r v example_updated_calibration
      headPoseToWorldPosition_formula [OF r, of "\<lparr>x = Fin 0.25, y = Fin 0.75, z = Fin 2\<rparr>"]
    by (simp add: DEFAULT_CALIBRATION_def)
qed

theorem headPoseToWorldPosition_quotient_counterexample:
  "Fin 0 < z \<lparr>x = Fin 0.5, y = Fin 0.5, z = Fin 0.7\<rparr> \<and>
   viewingDistanceCm (calibration example_offAxisCamera) = Fin 60 \<and>
   z (headPoseToWorldPosition example_offAxisCamera \<lparr>x = Fin 0.5, y = Fin 0.5, z = Fin 0.7\<rparr>) =
     Fin 0.8571428571428571 \<and>
   Fin 60 * Fin 0.01 / z \<lparr>x = Fin 0.5, y = Fin 0.5, z = Fin 0.7\<rparr> = Fin 0.8571428571428572 \<and>
   Fin 0.8571428571428571 \<noteq> Fin 0.8571428571428572"
proof -
  have v: "Fin 0 < Fin 0.7"
    "Fin 60 * Fin 0.01 * (Fin 1.0 / Fin 0.7) = Fin 0.8571428571428571"
    "Fin 60 * Fin 0.01 / Fin 0.7 = Fin 0.8571428571428572"
    "Fin 0.8571428571428571 \<noteq> Fin 0.8571428571428572"
    by (simp_all add: number_eval)
  show ?thesis
    using v
    by (simp add: headPoseToWorldPosition_def Let_def example_offAxisCamera_fields
        DEFAULT_CALIBRATION_def)
qed






text \<open>
  Claim C4, as the code has it. \<open>setCameraPosition\<close> puts the camera at the eye
  position and aims it at \<open>(eye.x, eye.y, 0)\<close>, the point of the screen plane straight
  in front of the eye, so that the camera keeps facing the screen along its normal.
  That point is the origin only for an eye on the axis: for the eye at \<open>(1, 2, 3)\<close> the
  target is \<open>(1, 2, 0)\<close>.
\<close>

theorem setCameraPosition_placement:
  "position (camera (setCameraPosition s headPosition)) =
     \<lparr>x = x headPosition, y = y headPosition, z = z headPosition\<rparr> \<and>
   lookAtTarget (camera (setCameraPosition s headPosition)) =
     \<lparr>x = x headPosition, y = y headPosition, z = Fin 0\<rparr>"
  by (simp add: setCameraPosition_def)

theorem setCameraPosition_lookAt_origin_counterexample:
  "position (camera (setCameraPosition example_offAxisCamera
       \<lparr>x = Fin 1, y = Fin 2, z = Fin 3\<rparr>)) =
     \<lparr>x = Fin 1, y = Fin 2, z = Fin 3\<rparr> \<and>
   lookAtTarget (camera (setCameraPosition example_offAxisCamera
       \<lparr>x = Fin 1, y = Fin 2, z = Fin 3\<rparr>)) =
     \<lparr>x = Fin 1, y = Fin 2, z = Fin 0\<rparr> \<and>
   lookAtTarget (camera (setCameraPosition example_offAxisCamera
       \<lparr>x = Fin 1, y = Fin 2, z = Fin 3\<rparr>)) \<noteq>
     \<lparr>x = Fin 0, y = Fin 0, z = Fin 0\<rparr>"
  by (simp add: setCameraPosition_def number_eval)






section \<open>Calibration store\<close>

lemma example_manager_data:
  "data example_manager = DEFAULT_CALIBRATION"
  by (simp add: example_manager_def CalibrationManager_new_def loadCalibration_def)

lemma example_calibrated_data:
  "data example_calibrated =
     \<lparr>screenWidthCm = Fin 34, screenHeightCm = Fin 19, viewingDistanceCm = Fin 60,
      pixelWidth = Fin 1920, pixelHeight = Fin 1080, isCalibrated = True\<rparr>"
  "data example_recalibrated =
     \<lparr>screenWidthCm = Fin 52, screenHeightCm = Fin 19, viewingDistanceCm = Fin 60,
      pixelWidth = Fin 2560, pixelHeight = Fin 1440, isCalibrated = True\<rparr>"
  "data (updatePixelDimensions example_calibrated (Fin 1920) (Fin 1200)) =
     \<lparr>screenWidthCm = Fin 34, screenHeightCm = Fin 19, viewingDistanceCm = Fin 60,
      pixelWidth = Fin 1920, pixelHeight = Fin 1200, isCalibrated = True\<rparr>"
  by (simp_all add: example_calibrated_def example_recalibrated_def updateScreenDimensions_def
      updatePixelDimensions_def saveCalibration_def spread_def no_properties_def Let_def
      example_manager_data DEFAULT_CALIBRATION_def)

lemma saveCalibration_call_returns: "saveCalibration_call m p = Inr (saveCalibration m p)"
  by (simp add: saveCalibration_call_def saveCalibration_def setItem_def Let_def)


text \<open>
  Claim C5. \<open>estimateViewingDistanceFromFaceWidth\<close> (assumed face width 15 when the
  argument is left out) returns the similar-triangles estimate
  \<open>assumedFaceWidthCm * screenWidthCm / observedFaceWidthCm\<close>, with
  \<open>observedFaceWidthCm = faceWidthNormalized * pixelWidth * cmPerPixel.x\<close>, clamped to
  \<open>[20, 150]\<close>: 20 when the estimate is below 20, 150 when it is above 150, the
  estimate itself otherwise.
\<close>

theorem estimateViewingDistance_clamped:
  "let assumedFaceWidthCm = (case arg of None \<Rightarrow> Fin 15 | Some a \<Rightarrow> a);
       observedFaceWidthCm = faceWidthNormalized * pixelWidth (data m) * x (getCmPerPixel m);
       raw = assumedFaceWidthCm * screenWidthCm (data m) / observedFaceWidthCm;
       result = estimateViewingDistanceFromFaceWidth m faceWidthNormalized arg
   in (raw < Fin 20 \<longrightarrow> result = Fin 20) \<and>
      (Fin 150 < raw \<longrightarrow> result = Fin 150) \<and>
      (\<not> raw < Fin 20 \<and> \<not> Fin 150 < raw \<longrightarrow> result = raw)"
  unfolding estimateViewingDistanceFromFaceWidth_def Let_def
  by (rule clamp_20_150)

theorem estimateViewingDistance_clamped_witness:
  "Fin 15 * Fin 34 / (Fin 3 * Fin 1920 * (Fin 34 / Fin 1920)) = Fin 5 \<and>
   Fin 5 < Fin 20 \<and>
   estimateViewingDistanceFromFaceWidth example_manager (Fin 3) None = Fin 20 \<and>
   Fin 15 * Fin 34 / (Fin 0.03 * Fin 1920 * (Fin 34 / Fin 1920)) = Fin 500.0000000000001 \<and>
   Fin 150 < Fin 500.0000000000001 \<and>
   estimateViewingDistanceFromFaceWidth example_manager (Fin 0.03) None = Fin 150 \<and>
   Fin 15 * Fin 34 / (Fin 0.2 * Fin 1920 * (Fin 34 / Fin 1920)) = Fin 75 \<and>
   \<not> Fin 75 < Fin 20 \<and> \<not> Fin 150 < Fin 75 \<and>
   estimateViewingDistanceFromFaceWidth example_manager (Fin 0.2) (Some (Fin 15)) = Fin 75"
proof -
  have v: "Fin 15 * Fin 34 / (Fin 3 * Fin 1920 * (Fin 34 / Fin 1920)) = Fin 5"
    "Fin 5 < Fin 20"
    "Fin 15 * Fin 34 / (Fin 0.03 * Fin 1920 * (Fin 34 / Fin 1920)) = Fin 500.0000000000001"
    "Fin 150 < Fin 500.0000000000001"
    "Fin 15 * Fin 34 / (Fin 0.2 * Fin 1920 * (Fin 34 / Fin 1920)) = Fin 75"
    "\<not> Fin 75 < Fin 20" "\<not> Fin 150 < Fin 75"
    by (simp_all add: number_eval)
  show ?thesis
    using v example_manager_data
      estimateViewingDistance_clamped [of None "Fin 3" example_manager]
      estimateViewingDistance_clamped [of None "Fin 0.03" example_manager]
      estimateViewingDistance_clamped [of "Some (Fin 15)" "Fin 0.2" example_manager]
    by (simp add: DEFAULT_CALIBRATION_def getCmPerPixel_def Let_def)
qed


text \<open>
  Claim C9. \<open>saveCalibration\<close> merges the partial update into the stored calibration:
  a property that the update names takes the value given, a property that it does not
  name keeps its value, and \<open>isCalibrated\<close> is true afterwards (also when the update
  names it with \<open>false\<close>).
\<close>

theorem saveCalibration_merges:
  "(screenWidthCm p = None \<longrightarrow>
      screenWidthCm (data (saveCalibration m p)) = screenWidthCm (data m)) \<and>
   (screenWidthCm p = Some w \<longrightarrow> screenWidthCm (data (saveCalibration m p)) = w) \<and>
   (screenHeightCm p = None \<longrightarrow>
      screenHeightCm (data (saveCalibration m p)) = screenHeightCm (data m)) \<and>
   (screenHeightCm p = Some h \<longrightarrow> screenHeightCm (data (saveCalibration m p)) = h) \<and>
   (viewingDistanceCm p = None \<longrightarrow>
      viewingDistanceCm (data (saveCalibration m p)) = viewingDistanceCm (data m)) \<and>
   (viewingDistanceCm p = Some d \<longrightarrow> viewingDistanceCm (data (saveCalibration m p)) = d) \<and>
   (pixelWidth p = None \<longrightarrow> pixelWidth (data (saveCalibration m p)) = pixelWidth (data m)) \<and>
   (pixelWidth p = Some pw \<longrightarrow> pixelWidth (data (saveCalibration m p)) = pw) \<and>
   (pixelHeight p = None \<longrightarrow> pixelHeight (data (saveCalibration m p)) = pixelHeight (data m)) \<and>
   (pixelHeight p = Some ph \<longrightarrow> pixelHeight (data (saveCalibration m p)) = ph) \<and>
   isCalibrated (data (saveCalibration m p))"
  by (simp add: saveCalibration_def spread_def Let_def)

theorem saveCalibration_merges_witness:
  "data (saveCalibration example_manager no_properties) =
     \<lparr>screenWidthCm = Fin 34, screenHeightCm = Fin 19, viewingDistanceCm = Fin 60,
      pixelWidth = Fin 1920, pixelHeight = Fin 1080, isCalibrated = True\<rparr> \<and>
   data (saveCalibration example_manager example_update) =
     \<lparr>screenWidthCm = Fin 52, screenHeightCm = Fin 29, viewingDistanceCm = Fin 70,
      pixelWidth = Fin 2560, pixelHeight = Fin 1440, isCalibrated = True\<rparr> \<and>
   data (saveCalibration example_manager (no_properties\<lparr>viewingDistanceCm := Some (Fin 45)\<rparr>)) =
     \<lparr>screenWidthCm = Fin 34, screenHeightCm = Fin 19, viewingDistanceCm = Fin 45,
      pixelWidth = Fin 1920, pixelHeight = Fin 1080, isCalibrated = True\<rparr>"
proof -
  have d: "data example_manager = DEFAULT_CALIBRATION"
    by (simp add: example_manager_def CalibrationManager_new_def loadCalibration_def)
  have 1: "data (saveCalibration example_manager no_properties) =
     \<lparr>screenWidthCm = Fin 34, screenHeightCm = Fin 19, viewingDistanceCm = Fin 60,
      pixelWidth = Fin 1920, pixelHeight = Fin 1080, isCalibrated = True\<rparr>"
    using saveCalibration_merges [of no_properties example_manager] d
    by (simp add: no_properties_def DEFAULT_CALIBRATION_def)
  have 2: "data (saveCalibration example_manager example_update) =
     \<lparr>screenWidthCm = Fin 52, screenHeightCm = Fin 29, viewingDistanceCm = Fin 70,
      pixelWidth = Fin 2560, pixelHeight = Fin 1440, isCalibrated = True\<rparr>"
    using saveCalibration_merges [of example_update example_manager "Fin 52" "Fin 29" "Fin 70"
        "Fin 2560" "Fin 1440"]
    by (simp add: example_update_def)
  have 3: "data (saveCalibration example_manager
       (no_properties\<lparr>viewingDistanceCm := Some (Fin 45)\<rparr>)) =
     \<lparr>screenWidthCm = Fin 34, screenHeightCm = Fin 19, viewingDistanceCm = Fin 45,
      pixelWidth = Fin 1920, pixelHeight = Fin 1080, isCalibrated = True\<rparr>"
    using saveCalibration_merges [of "no_properties\<lparr>viewingDistanceCm := Some (Fin 45)\<rparr>"
        example_manager _ _ "Fin 45"] d
    by (simp add: no_properties_def DEFAULT_CALIBRATION_def)
  show ?thesis using 1 2 3 by simp
qed


text \<open>
  Claim C6, as the code has it. The store does not validate an update:
  \<open>saveCalibration\<close> has no check, and the call returns normally for every update and
  every storage (what \<open>setItem\<close> raises is caught inside). Each value that the update
  provides, a zero or negative one like any other, replaces the stored one and is what
  \<open>getCalibration\<close> returns afterwards, and \<open>isCalibrated\<close> becomes true. On the default
  calibration, the update \<open>{screenWidthCm: -5}\<close> leaves a screen width of \<open>-5\<close>.
\<close>

theorem saveCalibration_accepts_update:
  "saveCalibration_call m p = Inr (saveCalibration m p) \<and>
   (screenWidthCm p = Some w \<longrightarrow>
      screenWidthCm (getCalibration (saveCalibration m p)) = w) \<and>
   (screenHeightCm p = Some h \<longrightarrow>
      screenHeightCm (getCalibration (saveCalibration m p)) = h) \<and>
   (viewingDistanceCm p = Some d \<longrightarrow>
      viewingDistanceCm (getCalibration (saveCalibration m p)) = d) \<and>
   (pixelWidth p = Some pw \<longrightarrow>
      pixelWidth (getCalibration (saveCalibration m p)) = pw) \<and>
   (pixelHeight p = Some ph \<longrightarrow>
      pixelHeight (getCalibration (saveCalibration m p)) = ph) \<and>
   isCalibrated (getCalibration (saveCalibration m p))"
  by (simp add: saveCalibration_call_returns saveCalibration_def getCalibration_def spread_def
      no_properties_def Let_def)

theorem saveCalibration_accepts_update_witness:
  "Fin (- 5) \<le> Fin 0 \<and> Fin 0 \<le> Fin 0 \<and> Fin (- 60) \<le> Fin 0 \<and> Fin (- 1) \<le> Fin 0 \<and>
   saveCalibration_call example_manager example_invalid_update =
     Inr (saveCalibration example_manager example_invalid_update) \<and>
   getCalibration (saveCalibration example_manager example_invalid_update) =
     \<lparr>screenWidthCm = Fin (- 5), screenHeightCm = Fin 0, viewingDistanceCm = Fin (- 60),
      pixelWidth = Fin 0, pixelHeight = Fin (- 1), isCalibrated = True\<rparr>"
proof -
  have v: "Fin (- 5) \<le> Fin 0" "Fin 0 \<le> Fin 0" "Fin (- 60) \<le> Fin 0" "Fin (- 1) \<le> Fin 0"
    by (simp_all add: number_eval)
  show ?thesis
    using v saveCalibration_accepts_update [of example_manager example_invalid_update
        "Fin (- 5)" "Fin 0" "Fin (- 60)" "Fin 0" "Fin (- 1)"]
    by (simp add: example_invalid_update_def)
qed

theorem saveCalibration_rejects_nonpositive_counterexample:
  "screenWidthCm (no_properties\<lparr>screenWidthCm := Some (Fin (- 5))\<rparr>) = Some (Fin (- 5)) \<and>
   Fin (- 5) \<le> Fin 0 \<and>
   data example_manager =
     \<lparr>screenWidthCm = Fin 34, screenHeightCm = Fin 19, viewingDistanceCm = Fin 60,
      pixelWidth = Fin 1920, pixelHeight = Fin 1080, isCalibrated = False\<rparr> \<and>
   saveCalibration_call example_manager (no_properties\<lparr>screenWidthCm := Some (Fin (- 5))\<rparr>) =
     Inr (saveCalibration example_manager (no_properties\<lparr>screenWidthCm := Some (Fin (- 5))\<rparr>)) \<and>
   data (saveCalibration example_manager (no_properties\<lparr>screenWidthCm := Some (Fin (- 5))\<rparr>)) =
     \<lparr>screenWidthCm = Fin (- 5), screenHeightCm = Fin 19, viewingDistanceCm = Fin 60,
      pixelWidth = Fin 1920, pixelHeight = Fin 1080, isCalibrated = True\<rparr> \<and>
   data (saveCalibration example_manager (no_properties\<lparr>screenWidthCm := Some (Fin (- 5))\<rparr>)) \<noteq>
     data example_manager"
proof -
  have v: "Fin (- 5) \<le> Fin 0" "Fin (- 5) \<noteq> Fin 34"
    by (simp_all add: number_eval)
  show ?thesis
    using v
    by (simp add: saveCalibration_call_returns saveCalibration_def spread_def Let_def
        no_properties_def example_manager_data DEFAULT_CALIBRATION_def)
qed


text \<open>
  Claim C10, as the code has it. The estimate reads the calibration through
  \<open>screenWidthCm\<close> and \<open>pixelWidth\<close> only: two calibration states that agree on these two
  give the same estimate, whatever \<open>pixelHeight\<close> and the other properties are.
  \<open>screenWidthCm\<close> and \<open>pixelWidth\<close> themselves cancel up to rounding: when the
  magnitudes of \<open>screenWidthCm\<close>, \<open>pixelWidth\<close>, \<open>faceWidthNormalized\<close> and
  \<open>assumedFaceWidthCm\<close> lie between \<open>2 ^ (- 100)\<close> and \<open>2 ^ 100\<close>, the estimate is a finite
  number within the relative error \<open>2 ^ (- 50)\<close> of
  \<open>ideal = assumedFaceWidthCm / faceWidthNormalized\<close> clamped to \<open>[20, 150]\<close> (the exact
  quotient of the two doubles), so that the estimates of two such states are at most
  \<open>ideal / 2 ^ 49\<close> apart. They are not always the same: for the face width 0.3 the
  34 cm screen of 1920 pixels gives 50 and the 52 cm screen of 2560 pixels gives
  49.99999999999999. Outside these magnitudes the cancellation can fail: a screen width or pixel
  width of zero gives NaN, and the screen width \<open>2 ^ (- 1073)\<close> on one pixel gives 30.
\<close>

theorem estimateViewingDistance_nearly_independent:
  "let assumedFaceWidthCm = (case arg of None \<Rightarrow> Fin 15 | Some a \<Rightarrow> a);
       ideal = max 20 (min 150 (val assumedFaceWidthCm / val faceWidthNormalized));
       estimate1 = estimateViewingDistanceFromFaceWidth m1 faceWidthNormalized arg;
       estimate2 = estimateViewingDistanceFromFaceWidth m2 faceWidthNormalized arg
   in (screenWidthCm (data m1) = screenWidthCm (data m2) \<and>
       pixelWidth (data m1) = pixelWidth (data m2) \<longrightarrow> estimate1 = estimate2) \<and>
      (magnitude_within 100 (val (screenWidthCm (data m1))) \<and>
       magnitude_within 100 (val (pixelWidth (data m1))) \<and>
       magnitude_within 100 (val (screenWidthCm (data m2))) \<and>
       magnitude_within 100 (val (pixelWidth (data m2))) \<and>
       magnitude_within 100 (val faceWidthNormalized) \<and>
       magnitude_within 100 (val assumedFaceWidthCm) \<longrightarrow>
         is_Fin estimate1 \<and> is_Fin estimate2 \<and>
         \<bar>val estimate1 - ideal\<bar> \<le> ideal / 2 ^ 50 \<and>
         \<bar>val estimate2 - ideal\<bar> \<le> ideal / 2 ^ 50 \<and>
         \<bar>val estimate1 - val estimate2\<bar> \<le> ideal / 2 ^ 49)"
proof -
  define ideal where
    "ideal = max 20 (min 150 (val (case arg of None \<Rightarrow> Fin 15 | Some a \<Rightarrow> a) / val faceWidthNormalized))"
  have frame: "estimateViewingDistanceFromFaceWidth m1 faceWidthNormalized arg =
               estimateViewingDistanceFromFaceWidth m2 faceWidthNormalized arg"
    if "screenWidthCm (data m1) = screenWidthCm (data m2)"
      and "pixelWidth (data m1) = pixelWidth (data m2)"
    using that by (simp add: estimateViewingDistanceFromFaceWidth_def getCmPerPixel_def Let_def)
  have close: "is_Fin (estimateViewingDistanceFromFaceWidth m1 faceWidthNormalized arg) \<and>
       is_Fin (estimateViewingDistanceFromFaceWidth m2 faceWidthNormalized arg) \<and>
       \<bar>val (estimateViewingDistanceFromFaceWidth m1 faceWidthNormalized arg) - ideal\<bar>
         \<le> ideal / 2 ^ 50 \<and>
       \<bar>val (estimateViewingDistanceFromFaceWidth m2 faceWidthNormalized arg) - ideal\<bar>
         \<le> ideal / 2 ^ 50 \<and>
       \<bar>val (estimateViewingDistanceFromFaceWidth m1 faceWidthNormalized arg) -
        val (estimateViewingDistanceFromFaceWidth m2 faceWidthNormalized arg)\<bar>
         \<le> ideal / 2 ^ 49"
    if m: "magnitude_within 100 (val (screenWidthCm (data m1)))"
      "magnitude_within 100 (val (pixelWidth (data m1)))"
      "magnitude_within 100 (val (screenWidthCm (data m2)))"
      "magnitude_within 100 (val (pixelWidth (data m2)))"
      "magnitude_within 100 (val faceWidthNormalized)"
      "magnitude_within 100 (val (case arg of None \<Rightarrow> Fin 15 | Some a \<Rightarrow> a))"
  proof -
    have 1: "is_Fin (estimateViewingDistanceFromFaceWidth m1 faceWidthNormalized arg)"
      "\<bar>val (estimateViewingDistanceFromFaceWidth m1 faceWidthNormalized arg) - ideal\<bar>
         \<le> ideal / 2 ^ 50"
      using estimate_close [OF m(1,2,5,6)] by (simp_all add: ideal_def)
    have 2: "is_Fin (estimateViewingDistanceFromFaceWidth m2 faceWidthNormalized arg)"
      "\<bar>val (estimateViewingDistanceFromFaceWidth m2 faceWidthNormalized arg) - ideal\<bar>
         \<le> ideal / 2 ^ 50"
      using estimate_close [OF m(3,4,5,6)] by (simp_all add: ideal_def)
    have "ideal / 2 ^ 49 = ideal / 2 ^ 50 + ideal / 2 ^ 50" by simp
    then have "\<bar>val (estimateViewingDistanceFromFaceWidth m1 faceWidthNormalized arg) -
        val (estimateViewingDistanceFromFaceWidth m2 faceWidthNormalized arg)\<bar>
         \<le> ideal / 2 ^ 49"
      using 1(2) 2(2) by linarith
    then show ?thesis using 1 2 by simp
  qed
  show ?thesis
    unfolding Let_def ideal_def [symmetric] using frame close by blast
qed

theorem estimateViewingDistance_nearly_independent_witness:
  "(screenWidthCm (data example_calibrated) =
      screenWidthCm (data (updatePixelDimensions example_calibrated (Fin 1920) (Fin 1200))) \<and>
    pixelWidth (data example_calibrated) =
      pixelWidth (data (updatePixelDimensions example_calibrated (Fin 1920) (Fin 1200)))) \<and>
   estimateViewingDistanceFromFaceWidth example_calibrated (Fin 0.3) None =
     estimateViewingDistanceFromFaceWidth
       (updatePixelDimensions example_calibrated (Fin 1920) (Fin 1200)) (Fin 0.3) None \<and>
   (magnitude_within 100 (val (screenWidthCm (data example_calibrated))) \<and>
    magnitude_within 100 (val (pixelWidth (data example_calibrated))) \<and>
    magnitude_within 100 (val (screenWidthCm (data example_recalibrated))) \<and>
    magnitude_within 100 (val (pixelWidth (data example_recalibrated))) \<and>
    magnitude_within 100 (val (Fin 0.3)) \<and>
    magnitude_within 100 (val (Fin 15))) \<and>
   estimateViewingDistanceFromFaceWidth example_calibrated (Fin 0.3) None = Fin 50 \<and>
   estimateViewingDistanceFromFaceWidth example_recalibrated (Fin 0.3) None =
     Fin 49.99999999999999 \<and>
   (is_Fin (Fin 50) \<and> is_Fin (Fin 49.99999999999999) \<and>
    \<bar>val (Fin 50) - max 20 (min 150 (val (Fin 15) / val (Fin 0.3)))\<bar>
      \<le> max 20 (min 150 (val (Fin 15) / val (Fin 0.3))) / 2 ^ 50 \<and>
    \<bar>val (Fin 49.99999999999999) - max 20 (min 150 (val (Fin 15) / val (Fin 0.3)))\<bar>
      \<le> max 20 (min 150 (val (Fin 15) / val (Fin 0.3))) / 2 ^ 50 \<and>
    \<bar>val (Fin 50) - val (Fin 49.99999999999999)\<bar>
      \<le> max 20 (min 150 (val (Fin 15) / val (Fin 0.3))) / 2 ^ 49)"
proof -
  have e: "Fin 15 * Fin 34 / (Fin 0.3 * Fin 1920 * (Fin 34 / Fin 1920)) = Fin 50"
    "Fin 15 * Fin 52 / (Fin 0.3 * Fin 2560 * (Fin 52 / Fin 2560)) = Fin 49.99999999999999"
    "Math_max (Fin 20) (Math_min (Fin 150) (Fin 50)) = Fin 50"
    "Math_max (Fin 20) (Math_min (Fin 150) (Fin 49.99999999999999)) = Fin 49.99999999999999"
    by (simp_all add: number_eval)
  have r: "estimateViewingDistanceFromFaceWidth example_calibrated (Fin 0.3) None = Fin 50"
    "estimateViewingDistanceFromFaceWidth example_recalibrated (Fin 0.3) None =
       Fin 49.99999999999999"
    using e
    by (simp_all add: estimateViewingDistanceFromFaceWidth_def getCmPerPixel_def Let_def
        example_calibrated_data)
  have same: "screenWidthCm (data example_calibrated) =
      screenWidthCm (data (updatePixelDimensions example_calibrated (Fin 1920) (Fin 1200))) \<and>
    pixelWidth (data example_calibrated) =
      pixelWidth (data (updatePixelDimensions example_calibrated (Fin 1920) (Fin 1200)))"
    by (simp add: example_calibrated_data)
  have m: "magnitude_within 100 (val (screenWidthCm (data example_calibrated))) \<and>
    magnitude_within 100 (val (pixelWidth (data example_calibrated))) \<and>
    magnitude_within 100 (val (screenWidthCm (data example_recalibrated))) \<and>
    magnitude_within 100 (val (pixelWidth (data example_recalibrated))) \<and>
    magnitude_within 100 (val (Fin 0.3)) \<and>
    magnitude_within 100 (val (Fin 15))"
    by (simp add: example_calibrated_data magnitude_within_def power_int_minus number_eval)
  note frame = estimateViewingDistance_nearly_independent [of None "Fin 0.3" example_calibrated
      "updatePixelDimensions example_calibrated (Fin 1920) (Fin 1200)",
      unfolded Let_def option.case, THEN conjunct1, rule_format, OF same]
  note close = estimateViewingDistance_nearly_independent [of None "Fin 0.3" example_calibrated
      example_recalibrated, unfolded Let_def option.case, THEN conjunct2, rule_format, OF m,
      unfolded r]
  show ?thesis
    using same frame m r close by blast
qed

theorem estimateViewingDistance_independent_counterexample:
  "data example_recalibrated =
     (data example_calibrated)
       \<lparr>screenWidthCm := Fin 52, pixelWidth := Fin 2560, pixelHeight := Fin 1440\<rparr> \<and>
   Fin 0 < Fin 0.3 \<and>
   estimateViewingDistanceFromFaceWidth example_calibrated (Fin 0.3) None = Fin 50 \<and>
   estimateViewingDistanceFromFaceWidth example_recalibrated (Fin 0.3) None =
     Fin 49.99999999999999 \<and>
   Fin 49.99999999999999 \<noteq> Fin 50 \<and>
   data (updateScreenDimensions example_calibrated (Fin 0) (Fin 19)) =
     (data example_calibrated)\<lparr>screenWidthCm := Fin 0\<rparr> \<and>
   estimateViewingDistanceFromFaceWidth
     (updateScreenDimensions example_calibrated (Fin 0) (Fin 19)) (Fin 0.3) None = NaN \<and>
   data (updatePixelDimensions example_calibrated (Fin 0) (Fin 1080)) =
     (data example_calibrated)\<lparr>pixelWidth := Fin 0\<rparr> \<and>
   estimateViewingDistanceFromFaceWidth
     (updatePixelDimensions example_calibrated (Fin 0) (Fin 1080)) (Fin 0.3) None = NaN \<and>
   data example_tiny_screen =
     (data example_calibrated)\<lparr>screenWidthCm := example_tiny_width, pixelWidth := Fin 1\<rparr> \<and>
   Fin 0 < example_tiny_width \<and>
   estimateViewingDistanceFromFaceWidth example_tiny_screen (Fin 0.3) None = Fin 30 \<and>
   Fin 30 \<noteq> Fin 50"
proof -
  have e: "Fin 15 * Fin 34 / (Fin 0.3 * Fin 1920 * (Fin 34 / Fin 1920)) = Fin 50"
    "Fin 15 * Fin 52 / (Fin 0.3 * Fin 2560 * (Fin 52 / Fin 2560)) = Fin 49.99999999999999"
    "Math_max (Fin 20) (Math_min (Fin 150) (Fin 50)) = Fin 50"
    "Math_max (Fin 20) (Math_min (Fin 150) (Fin 49.99999999999999)) = Fin 49.99999999999999"
    "Fin 49.99999999999999 \<noteq> Fin 50" "Fin 0 < Fin 0.3"
    "Fin 15 * Fin 0 / (Fin 0.3 * Fin 1920 * (Fin 0 / Fin 1920)) = NaN"
    "Fin 15 * Fin 34 / (Fin 0.3 * Fin 0 * (Fin 34 / Fin 0)) = NaN"
    "Math_max (Fin 20) (Math_min (Fin 150) NaN) = NaN"
    "Math_max (Fin 20) (Math_min (Fin 150) (Fin 30)) = Fin 30"
    "Fin 30 \<noteq> Fin 50"
    by (simp_all add: number_eval)
  have d: "data (updateScreenDimensions example_calibrated (Fin 0) (Fin 19)) =
       (data example_calibrated)\<lparr>screenWidthCm := Fin 0\<rparr>"
    "data (updatePixelDimensions example_calibrated (Fin 0) (Fin 1080)) =
       (data example_calibrated)\<lparr>pixelWidth := Fin 0\<rparr>"
    "data example_tiny_screen =
       (data example_calibrated)\<lparr>screenWidthCm := example_tiny_width, pixelWidth := Fin 1\<rparr>"
    by (simp_all add: updateScreenDimensions_def updatePixelDimensions_def saveCalibration_def
        spread_def no_properties_def Let_def example_calibrated_data example_tiny_screen_def)
  show ?thesis
    using e d underflow_estimate example_tiny_width_pos
    by (simp add: estimateViewingDistanceFromFaceWidth_def getCmPerPixel_def Let_def
        example_calibrated_data)
qed



section \<open>Landmark adapter\<close>

text \<open>
  \<open>onResults\<close> hands a pose to the callback only for a first landmark set of at least
  468 points, with the canvas and the callback present.
\<close>

lemma onResults_pose_origin:
  assumes "onResults canvas callback results = Called (Some pose)"
  shows "canvas \<and> callback \<and>
         (\<exists>landmarks others. multiFaceLandmarks results = Some (landmarks # others) \<and>
            468 \<le> length landmarks)"
  using assms
  by (auto simp: onResults_def Let_def split: if_splits option.splits list.splits)

lemma example_landmarks_nth:
  "example_landmarks ! 133 = \<lparr>x = Fin 0.4375, y = Fin 0.48, z = Fin 0\<rparr>"
  "example_landmarks ! 362 = \<lparr>x = Fin 0.5625, y = Fin 0.48, z = Fin 0\<rparr>"
  "example_landmarks ! Suc 0 = \<lparr>x = Fin 0.5, y = Fin 0.54, z = Fin 0\<rparr>"
  "example_landmarks ! 33 = \<lparr>x = Fin 0.375, y = Fin 0.48, z = Fin 0\<rparr>"
  "example_landmarks ! 263 = \<lparr>x = Fin 0.625, y = Fin 0.48, z = Fin 0\<rparr>"
  "length example_landmarks = 468"
  by (simp_all add: example_landmarks_def)

lemma is_Fin_Fin: "\<bar>rnd r\<bar> < overflow \<Longrightarrow> is_Fin (Fin r)"
  by (cases r rule: Fin_cases) auto

lemma example_landmarks_finite:
  "list_all (\<lambda>p. is_Fin (x p) \<and> is_Fin (y p)) example_landmarks"
proof -
  have "is_Fin (Fin 0.5625)" "is_Fin (Fin 0.625)" "is_Fin (Fin 0.375)" "is_Fin (Fin 0.4375)"
    "is_Fin (Fin 0.5)" "is_Fin (Fin 0.48)" "is_Fin (Fin 0.54)"
    by (simp_all add: number_eval)
  then show ?thesis
    by (simp add: example_landmarks_def list_all_iff)
qed


text \<open>
  Claim C7. For a detected landmark set (at least 468 points, whose coordinates are
  finite numbers) the adapter hands the callback a pose whose depth proxy is clamped:
  \<open>0.5 \<le> z \<le> 2.0\<close>, hence \<open>z > 0\<close>.
\<close>

theorem onResults_depth_clamped:
  assumes "canvas" and "callback"
    and "multiFaceLandmarks results = Some (landmarks # others)"
    and "468 \<le> length landmarks"
    and "list_all (\<lambda>p. is_Fin (x p) \<and> is_Fin (y p)) landmarks"
  shows "\<exists>pose. onResults canvas callback results = Called (Some pose) \<and>
           Fin 0.5 \<le> z pose \<and> z pose \<le> Fin 2.0 \<and> Fin 0 < z pose"
proof -
  have fin: "is_Fin (x (landmarks ! i)) \<and> is_Fin (y (landmarks ! i))" if "i < 468" for i
  proof -
    have "landmarks ! i \<in> set landmarks" using that assms(4) by simp
    then show ?thesis
      using assms(5) by (auto simp: list_all_iff)
  qed
  have depth: "(Math_sqrt (Math_pow (x (landmarks ! 362) - x (landmarks ! 133)) 2 +
                           Math_pow (y (landmarks ! 362) - y (landmarks ! 133)) 2) +
                Math_sqrt (Math_pow (x (landmarks ! 263) - x (landmarks ! 33)) 2 +
                           Math_pow (y (landmarks ! 263) - y (landmarks ! 33)) 2) * Fin 0.5)
               / Fin 0.15 \<noteq> NaN"
    using fin [of 133] fin [of 362] fin [of 33] fin [of 263]
    by (intro depth_clamped) simp_all
  show ?thesis
    using assms(1-4) clamp_half_two [OF depth]
    by (simp add: onResults_def Let_def)
qed

theorem onResults_depth_clamped_witness:
  "multiFaceLandmarks \<lparr>multiFaceLandmarks = Some [example_landmarks]\<rparr> =
     Some (example_landmarks # []) \<and>
   468 \<le> length example_landmarks \<and>
   list_all (\<lambda>p. is_Fin (x p) \<and> is_Fin (y p)) example_landmarks \<and>
   onResults True True \<lparr>multiFaceLandmarks = Some [example_landmarks]\<rparr> =
     Called (Some \<lparr>x = Fin 0.5, y = Fin 0.5, z = Fin 1.6666666666666667\<rparr>) \<and>
   Fin 0.5 \<le> Fin 1.6666666666666667 \<and> Fin 1.6666666666666667 \<le> Fin 2.0"
proof -
  have s1: "sqrt (1 / 64 :: real) = 1 / 8"
    by (rule real_sqrt_unique) (simp_all add: power2_eq_square)
  have s2: "sqrt (1 / 16 :: real) = 1 / 4"
    by (rule real_sqrt_unique) (simp_all add: power2_eq_square)
  have e: "(Fin 0.4375 + Fin 0.5625 + Fin 0.5) / Fin 3 = Fin 0.5"
    "(Fin 0.48 + Fin 0.48 + Fin 0.54) / Fin 3 = Fin 0.5"
    "Fin 0.5625 - Fin 0.4375 = Fin 0.125" "Fin 0.625 - Fin 0.375 = Fin 0.25"
    "Fin 0.48 - Fin 0.48 = Fin 0"
    "Math_pow (Fin 0.125) 2 = Fin 0.015625" "Math_pow (Fin 0.25) 2 = Fin 0.0625"
    "Math_pow (Fin 0) 2 = Fin 0"
    "Fin 0.015625 + Fin 0 = Fin 0.015625" "Fin 0.0625 + Fin 0 = Fin 0.0625"
    "Math_sqrt (Fin 0.015625) = Fin 0.125" "Math_sqrt (Fin 0.0625) = Fin 0.25"
    "(Fin 0.125 + Fin 0.25 * Fin 0.5) / Fin 0.15 = Fin 1.6666666666666667"
    "Math_max (Fin 0.5) (Math_min (Fin 2.0) (Fin 1.6666666666666667)) = Fin 1.6666666666666667"
    "Fin 0.5 \<le> Fin 1.6666666666666667" "Fin 1.6666666666666667 \<le> Fin 2.0"
    by (simp_all add: number_eval Math_pow_def power2_eq_square s1 s2)
  have v: "onResults True True \<lparr>multiFaceLandmarks = Some [example_landmarks]\<rparr> =
     Called (Some \<lparr>x = Fin 0.5, y = Fin 0.5, z = Fin 1.6666666666666667\<rparr>)"
    using e by (simp add: onResults_def Let_def example_landmarks_nth)
  have h: "True" "True"
    "multiFaceLandmarks \<lparr>multiFaceLandmarks = Some [example_landmarks]\<rparr> =
       Some (example_landmarks # [])"
    "468 \<le> length example_landmarks"
    by (simp_all add: example_landmarks_nth)
  show ?thesis
    using onResults_depth_clamped [OF h example_landmarks_finite] h v e
      example_landmarks_finite
    by simp
qed


end
